theory Spec2Isabelle
  imports Main "HOL-Library.AList"
begin

section \<open>Temporary voice channel handling: data model\<close>

text \<open>
  The cog keeps one configuration record per guild (Red's \<open>Config\<close>) and one
  process-local dictionary of scheduled deletion tasks. Every handler of the source is an
  \<open>async def\<close>; the model runs each handler to completion on an explicit state, so it
  describes the sequential behaviour of each handler and not the interleavings of two of them.

  Python dictionaries are association lists with distinct keys in insertion order:
  assigning to an existing key keeps its position, assigning to a new key appends, and
  \<open>pop(k, None)\<close> drops the key when it is there.
\<close>

type_synonym ('k, 'v) dict = "('k \<times> 'v) list"

definition dict_get :: "('k, 'v) dict \<Rightarrow> 'k \<Rightarrow> 'v option" where
  "dict_get d k = map_of d k"

definition dict_set :: "'k \<Rightarrow> 'v \<Rightarrow> ('k, 'v) dict \<Rightarrow> ('k, 'v) dict" where
  "dict_set k v d = AList.update k v d"

definition dict_pop :: "'k \<Rightarrow> ('k, 'v) dict \<Rightarrow> ('k, 'v) dict" where
  "dict_pop k d = AList.delete k d"

definition dict_keys :: "('k, 'v) dict \<Rightarrow> 'k list" where
  "dict_keys d = map fst d"

definition dict_values :: "('k, 'v) dict \<Rightarrow> 'v list" where
  "dict_values d = map snd d"

text \<open>
  \<open>default_guild\<close> of the source. The key of \<open>owner_channels\<close> is \<open>str(user_id)\<close> in the
  source; decimal rendering of an integer is injective, so the model keys the dictionary by
  the user id itself. \<open>counter\<close> is optional because the source tests it against \<open>None\<close>.
\<close>

record guild_conf =
  creation_channel_id :: "int option"
  name_template :: string
  delete_delay :: int
  temp_category_id :: "int option"
  temp_channels :: "int list"
  counter :: "int option"
  owner_channels :: "(int, int) dict"

definition default_guild :: guild_conf where
  "default_guild =
     \<lparr>creation_channel_id = None, name_template = ''{user}'' @ [CHR 0x27] @ ''s channel'',
      delete_delay = 10, temp_category_id = None, temp_channels = [],
      counter = Some 1, owner_channels = []\<rparr>"

subsection \<open>The counter\<close>

text \<open>
  \<^verbatim>\<open>
  current = await conf.counter()
  if current is None or current < 1:
      current = 1
  await conf.counter.set(current + 1)
  return current
  \<close>
\<close>

definition get_next_counter :: "guild_conf \<Rightarrow> int \<times> guild_conf" where
  "get_next_counter conf =
     (let current = (case counter conf of
                       None \<Rightarrow> 1
                     | Some c \<Rightarrow> if c < 1 then 1 else c)
      in (current, conf\<lparr>counter := Some (current + 1)\<rparr>))"

text \<open>\<open>n\<close> calls in a row, collecting the returned values in call order.\<close>

fun get_next_counters :: "nat \<Rightarrow> guild_conf \<Rightarrow> int list \<times> guild_conf" where
  "get_next_counters 0 conf = ([], conf)"
| "get_next_counters (Suc n) conf =
     (let (v, conf') = get_next_counter conf;
          (vs, conf'') = get_next_counters n conf'
      in (v # vs, conf''))"

subsection \<open>The tracked temp-channel list\<close>

text \<open>
  \<^verbatim>\<open>
  if channel_id not in channels: channels.append(channel_id)
  if channel_id in channels: channels.remove(channel_id)
  \<close>
  \<open>list.remove\<close> deletes the first occurrence only.
\<close>

definition add_temp_channel :: "guild_conf \<Rightarrow> int \<Rightarrow> guild_conf" where
  "add_temp_channel conf channel_id =
     (if channel_id \<notin> set (temp_channels conf)
      then conf\<lparr>temp_channels := temp_channels conf @ [channel_id]\<rparr>
      else conf)"

definition remove_temp_channel :: "guild_conf \<Rightarrow> int \<Rightarrow> guild_conf" where
  "remove_temp_channel conf channel_id =
     (if channel_id \<in> set (temp_channels conf)
      then conf\<lparr>temp_channels := remove1 channel_id (temp_channels conf)\<rparr>
      else conf)"

subsection \<open>The owner dictionary\<close>

text \<open>
  \<^verbatim>\<open>
  async def _set_owner_channel(self, guild, user_id, channel_id):
      async with self.config.guild(guild).owner_channels() as owners:
          owners[str(user_id)] = channel_id

  async def _clear_owner_by_channel(self, guild, channel_id):
      async with self.config.guild(guild).owner_channels() as owners:
          to_delete = [uid for uid, cid in owners.items() if cid == channel_id]
          for uid in to_delete:
              owners.pop(uid, None)
  \<close>
\<close>

definition set_owner_channel :: "guild_conf \<Rightarrow> int \<Rightarrow> int \<Rightarrow> guild_conf" where
  "set_owner_channel conf user_id channel_id =
     conf\<lparr>owner_channels := dict_set user_id channel_id (owner_channels conf)\<rparr>"

definition clear_owner_by_channel :: "guild_conf \<Rightarrow> int \<Rightarrow> guild_conf" where
  "clear_owner_by_channel conf channel_id =
     (let owners = owner_channels conf;
          to_delete = map fst (filter (\<lambda>(uid, cid). cid = channel_id) owners)
      in conf\<lparr>owner_channels := fold dict_pop to_delete owners\<rparr>)"

text \<open>
  The two properties of the owner dictionary that the specification names: a user has at
  most one entry, and a channel id is the value of at most one entry.
\<close>

definition owners_inv :: "(int, int) dict \<Rightarrow> bool" where
  "owners_inv owners \<longleftrightarrow> distinct (dict_keys owners) \<and> distinct (dict_values owners)"

text \<open>The value the next call of \<open>get_next_counter\<close> hands out.\<close>

definition counter_value :: "guild_conf \<Rightarrow> int" where
  "counter_value conf = (case counter conf of None \<Rightarrow> 1 | Some c \<Rightarrow> if c < 1 then 1 else c)"

section \<open>The platform and the lifecycle engine\<close>

subsection \<open>What the guild cache shows\<close>

text \<open>
  \<open>guild.get_channel(id)\<close> returns a channel object or \<open>None\<close>, and the source tests
  the object with \<open>isinstance\<close>. A member's voice state names the channel the member is
  connected to; \<open>channel.members\<close> is computed by discord.py from the voice states, so the
  model keeps the voice states only. A permission overwrite is the list of the permissions
  it grants; its key is the id of the member or role.
\<close>

datatype channel_kind = VoiceChannel | CategoryChannel | OtherChannel

type_synonym overwrite = "string list"

record channel =
  kind :: channel_kind
  channel_name :: string
  category :: "int option"
  overwrites :: "(int, overwrite) dict"

record platform =
  channels :: "(int, channel) dict"
  voice_states :: "(int, int) dict"
  me_manage_channels :: bool
  me_move_members :: bool

record member =
  member_id :: int
  display_name :: string
  member_tag :: string
  bot :: bool

definition get_channel :: "platform \<Rightarrow> int \<Rightarrow> channel option" where
  "get_channel p channel_id = dict_get (channels p) channel_id"

definition is_voice_channel :: "platform \<Rightarrow> int \<Rightarrow> bool" where
  "is_voice_channel p channel_id =
     (case get_channel p channel_id of None \<Rightarrow> False | Some ch \<Rightarrow> kind ch = VoiceChannel)"

definition channel_members :: "platform \<Rightarrow> int \<Rightarrow> int list" where
  "channel_members p channel_id =
     map fst (filter (\<lambda>(uid, cid). cid = channel_id) (voice_states p))"

text \<open>
  The answers of the platform to a request are inputs of the model. \<open>discord.NotFound\<close>
  is the only answer to \<open>channel.delete\<close> that the timer catches; \<open>member.move_to\<close>,
  \<open>channel.edit\<close> and \<open>guild.create_voice_channel\<close> fail with \<open>discord.HTTPException\<close>.
\<close>

datatype delete_response = DeleteOk | DeleteNotFound | DeleteHTTPError
datatype move_response = MoveOk | MoveHTTPError
datatype edit_response = EditOk | EditHTTPError
datatype create_response = CreateOk int | CreateHTTPError

text \<open>
  The exceptions of the model. Each of them is a subclass of Python's \<open>Exception\<close>, which
  is what \<open>except Exception\<close> catches.
\<close>

datatype exn = KeyError | IndexError | ValueError | AttributeError | TypeError | HTTPException

subsection \<open>State\<close>

text \<open>
  \<open>self._delete_tasks\<close> maps a channel id to an \<open>asyncio.Task\<close>. The model keeps every
  task that \<open>asyncio.create_task\<close> has made in \<open>tasks\<close>; a task object is its index there.
  A task is sleeping (suspended in \<open>asyncio.sleep\<close>), cancelled, or finished.
\<close>

datatype task_status = Sleeping | Cancelled | Finished

record delete_task =
  task_channel :: int
  task_status :: task_status

record state =
  config :: guild_conf
  platform :: platform
  delete_tasks :: "(int, nat) dict"
  tasks :: "delete_task list"

definition set_task_status :: "nat \<Rightarrow> task_status \<Rightarrow> delete_task list \<Rightarrow> delete_task list" where
  "set_task_status t st ts = (if t < length ts then ts[t := (ts ! t)\<lparr>task_status := st\<rparr>] else ts)"

definition is_sleeping :: "state \<Rightarrow> nat \<Rightarrow> bool" where
  "is_sleeping s t \<longleftrightarrow> t < length (tasks s) \<and> task_status (tasks s ! t) = Sleeping"

subsection \<open>Scheduling, cancelling and running a deletion\<close>

text \<open>
  \<^verbatim>\<open>
  if channel.id in self._delete_tasks: return
  if len(channel.members) != 0: return
  task = asyncio.create_task(self._delete_temp_channel_after_delay(channel))
  self._delete_tasks[channel.id] = task
  \<close>
  Before it sleeps, the new task only reads the delay (\<open>channel.guild\<close> of a
  \<open>discord.VoiceChannel\<close> is a guild, never \<open>None\<close>).
\<close>

definition schedule_delete_temp_channel :: "state \<Rightarrow> int \<Rightarrow> state" where
  "schedule_delete_temp_channel s channel_id =
     (if channel_id \<in> set (dict_keys (delete_tasks s)) then s
      else if length (channel_members (platform s) channel_id) \<noteq> 0 then s
      else let task = length (tasks s)
           in s\<lparr>tasks := tasks s @ [\<lparr>task_channel = channel_id, task_status = Sleeping\<rparr>],
                delete_tasks := dict_set channel_id task (delete_tasks s)\<rparr>)"

text \<open>
  The part of \<open>_delete_temp_channel_after_delay\<close> after \<open>await asyncio.sleep(delay)\<close>,
  run when the delay of task \<open>t\<close> has elapsed. Only a sleeping task resumes there.
  \<^verbatim>\<open>
  try:
      await asyncio.sleep(delay)
      ...
      if len(channel.members) == 0:
          channel_id = channel.id
          try:
              await channel.delete(reason="Temporary voice channel empty.")
          except discord.NotFound:
              pass
          await self._remove_temp_channel(guild, channel_id)
          await self._clear_owner_by_channel(guild, channel_id)
  finally:
      self._delete_tasks.pop(getattr(channel, "id", None), None)
  \<close>
\<close>

definition task_finally :: "nat \<Rightarrow> int \<Rightarrow> task_status \<Rightarrow> state \<Rightarrow> state" where
  "task_finally t channel_id st s =
     s\<lparr>delete_tasks := dict_pop channel_id (delete_tasks s),
       tasks := set_task_status t st (tasks s)\<rparr>"

definition reclaim_config :: "guild_conf \<Rightarrow> int \<Rightarrow> guild_conf" where
  "reclaim_config conf channel_id =
     clear_owner_by_channel (remove_temp_channel conf channel_id) channel_id"

definition delete_temp_channel_after_delay ::
    "state \<Rightarrow> nat \<Rightarrow> delete_response \<Rightarrow> (exn + unit) \<times> state" where
  "delete_temp_channel_after_delay s t resp =
     (if \<not> is_sleeping s t then (Inr (), s)
      else
        let channel_id = task_channel (tasks s ! t) in
        if length (channel_members (platform s) channel_id) = 0 then
          (case resp of
             DeleteHTTPError \<Rightarrow> (Inl HTTPException, task_finally t channel_id Finished s)
           | DeleteNotFound \<Rightarrow>
               (Inr (), task_finally t channel_id Finished
                          (s\<lparr>config := reclaim_config (config s) channel_id\<rparr>))
           | DeleteOk \<Rightarrow>
               (Inr (), task_finally t channel_id Finished
                          (s\<lparr>platform := (platform s)\<lparr>channels :=
                                 dict_pop channel_id (channels (platform s))\<rparr>,
                             config := reclaim_config (config s) channel_id\<rparr>)))
        else (Inr (), task_finally t channel_id Finished s))"

text \<open>
  \<^verbatim>\<open>
  task = self._delete_tasks.pop(channel_id, None)
  if task and not task.done():
      task.cancel()
  \<close>
  Cancelling a sleeping task raises \<open>CancelledError\<close> at its \<open>asyncio.sleep\<close>, so the
  task leaves through its \<open>finally\<close> clause and never reaches the code after the sleep.
\<close>

definition cancel_delete_task :: "state \<Rightarrow> int \<Rightarrow> state" where
  "cancel_delete_task s channel_id =
     (case dict_get (delete_tasks s) channel_id of
        None \<Rightarrow> s
      | Some task \<Rightarrow>
          let s' = s\<lparr>delete_tasks := dict_pop channel_id (delete_tasks s)\<rparr>
          in if is_sleeping s' task
             then task_finally task (task_channel (tasks s' ! task)) Cancelled s'
             else s')"

text \<open>The timer events of one guild, and a run of them.\<close>

datatype timer_event = Schedule int | Cancel int | Elapse nat delete_response

fun timer_step :: "state \<Rightarrow> timer_event \<Rightarrow> state" where
  "timer_step s (Schedule channel_id) = schedule_delete_temp_channel s channel_id"
| "timer_step s (Cancel channel_id) = cancel_delete_task s channel_id"
| "timer_step s (Elapse t resp) = snd (delete_temp_channel_after_delay s t resp)"

definition timer_run :: "timer_event list \<Rightarrow> state \<Rightarrow> state" where
  "timer_run evs s = foldl timer_step s evs"

text \<open>
  In every state the engine reaches, the registry has one entry per key, an entry names a
  task of its channel, and a sleeping task is the registered task of its channel.
\<close>

definition tasks_inv :: "state \<Rightarrow> bool" where
  "tasks_inv s \<longleftrightarrow>
     distinct (dict_keys (delete_tasks s)) \<and>
     (\<forall>(c, t) \<in> set (delete_tasks s). t < length (tasks s) \<and> task_channel (tasks s ! t) = c) \<and>
     (\<forall>t < length (tasks s). task_status (tasks s ! t) = Sleeping \<longrightarrow>
        dict_get (delete_tasks s) (task_channel (tasks s ! t)) = Some t)"

definition no_sleeping_task_for :: "state \<Rightarrow> int \<Rightarrow> bool" where
  "no_sleeping_task_for s channel_id \<longleftrightarrow>
     (\<forall>t < length (tasks s). task_channel (tasks s ! t) = channel_id \<longrightarrow>
        task_status (tasks s ! t) \<noteq> Sleeping)"

definition channel_exists :: "state \<Rightarrow> int \<Rightarrow> bool" where
  "channel_exists s channel_id \<longleftrightarrow> channel_id \<in> set (dict_keys (channels (platform s)))"

subsection \<open>Rendering a channel name\<close>

text \<open>
  \<open>_render_channel_name\<close> calls Python's \<open>str.format\<close> with the keyword arguments
  \<open>user\<close>, \<open>id\<close>, \<open>tag\<close> and \<open>counter\<close> and no positional argument. The model of
  \<open>str.format\<close> reads the template one character at a time, as CPython's parser does:
  \<open>{{\<close> and \<open>}}\<close> are literal braces, a single \<open>}\<close> is an error, and \<open>{\<close> opens a
  replacement field made of a field name, an optional conversion after \<open>!\<close> and an optional
  format specification after \<open>:\<close>. A field that is a plain keyword is replaced by \<open>str\<close>
  of its value. Attribute and index access, conversions and format specifications are the
  work of other built-ins; they are the parameter \<open>bf\<close>, which returns a string or raises.
\<close>

datatype pyval = PyStr string | PyInt int

definition digit_char :: "nat \<Rightarrow> char" where
  "digit_char n = ''0123456789'' ! (n mod 10)"

function str_nat :: "nat \<Rightarrow> string" where
  "str_nat n = (if n < 10 then [digit_char n] else str_nat (n div 10) @ [digit_char n])"
  by pat_completeness auto
termination
  by (relation "measure id") auto

declare str_nat.simps [simp del]

definition str_int :: "int \<Rightarrow> string" where
  "str_int i = (if i < 0 then CHR ''-'' # str_nat (nat (- i)) else str_nat (nat i))"

definition py_str :: "pyval \<Rightarrow> string" where
  "py_str v = (case v of PyStr s \<Rightarrow> s | PyInt i \<Rightarrow> str_int i)"

type_synonym builtin_format = "pyval \<Rightarrow> string \<Rightarrow> char option \<Rightarrow> string \<Rightarrow> exn + string"

definition format_kwargs :: "member \<Rightarrow> int \<Rightarrow> (string, pyval) dict" where
  "format_kwargs m c =
     [(''user'', PyStr (display_name m)), (''id'', PyInt (member_id m)),
      (''tag'', PyStr (member_tag m)), (''counter'', PyInt c)]"

definition is_digit :: "char \<Rightarrow> bool" where
  "is_digit c \<longleftrightarrow> c \<in> set ''0123456789''"

definition is_accessor :: "char \<Rightarrow> bool" where
  "is_accessor c \<longleftrightarrow> c = CHR ''.'' \<or> c = CHR ''[''"

text \<open>
  One replacement field. An empty or numeric first part of the name is a positional index,
  out of range because no positional argument is passed; any other name is a keyword.
\<close>

definition format_field ::
    "builtin_format \<Rightarrow> (string, pyval) dict \<Rightarrow> string \<Rightarrow> char option \<Rightarrow> string \<Rightarrow> exn + string" where
  "format_field bf kw field_name conv spec =
     (let first = takeWhile (\<lambda>c. \<not> is_accessor c) field_name;
          rest = dropWhile (\<lambda>c. \<not> is_accessor c) field_name
      in if list_all is_digit first then Inl IndexError
         else case dict_get kw first of
                None \<Rightarrow> Inl KeyError
              | Some v \<Rightarrow>
                  if rest = [] \<and> conv = None \<and> spec = [] then Inr (py_str v)
                  else bf v rest conv spec)"

datatype fmt_mode =
    Text
  | LBrace
  | RBrace
  | FieldName string
  | FieldIndex string
  | ConvChar string
  | ConvEnd string char
  | FormatSpec string "char option" string nat

definition end_field ::
    "builtin_format \<Rightarrow> (string, pyval) dict \<Rightarrow> string \<Rightarrow> string \<Rightarrow> char option \<Rightarrow> string
       \<Rightarrow> exn + (fmt_mode \<times> string)" where
  "end_field bf kw out field_name conv spec =
     (case format_field bf kw field_name conv spec of
        Inl e \<Rightarrow> Inl e
      | Inr s \<Rightarrow> Inr (Text, out @ s))"

definition field_name_step ::
    "builtin_format \<Rightarrow> (string, pyval) dict \<Rightarrow> string \<Rightarrow> string \<Rightarrow> char
       \<Rightarrow> exn + (fmt_mode \<times> string)" where
  "field_name_step bf kw field_name out c =
     (if c = CHR ''{'' then Inl ValueError
      else if c = CHR ''['' then Inr (FieldIndex (field_name @ [c]), out)
      else if c = CHR ''}'' then end_field bf kw out field_name None []
      else if c = CHR '':'' then Inr (FormatSpec field_name None [] 1, out)
      else if c = CHR ''!'' then Inr (ConvChar field_name, out)
      else Inr (FieldName (field_name @ [c]), out))"

fun fmt_step ::
    "builtin_format \<Rightarrow> (string, pyval) dict \<Rightarrow> fmt_mode \<Rightarrow> string \<Rightarrow> char
       \<Rightarrow> exn + (fmt_mode \<times> string)" where
  "fmt_step bf kw Text out c =
     (if c = CHR ''{'' then Inr (LBrace, out)
      else if c = CHR ''}'' then Inr (RBrace, out)
      else Inr (Text, out @ [c]))"
| "fmt_step bf kw LBrace out c =
     (if c = CHR ''{'' then Inr (Text, out @ [c]) else field_name_step bf kw [] out c)"
| "fmt_step bf kw RBrace out c =
     (if c = CHR ''}'' then Inr (Text, out @ [c]) else Inl ValueError)"
| "fmt_step bf kw (FieldName n) out c = field_name_step bf kw n out c"
| "fmt_step bf kw (FieldIndex n) out c =
     (if c = CHR '']'' then Inr (FieldName (n @ [c]), out) else Inr (FieldIndex (n @ [c]), out))"
| "fmt_step bf kw (ConvChar n) out c = Inr (ConvEnd n c, out)"
| "fmt_step bf kw (ConvEnd n cv) out c =
     (if c = CHR ''}'' then end_field bf kw out n (Some cv) []
      else if c = CHR '':'' then Inr (FormatSpec n (Some cv) [] 1, out)
      else Inl ValueError)"
| "fmt_step bf kw (FormatSpec n cv sp k) out c =
     (if c = CHR ''{'' then Inr (FormatSpec n cv (sp @ [c]) (Suc k), out)
      else if c = CHR ''}'' then
        (if k \<le> 1 then end_field bf kw out n cv sp
         else Inr (FormatSpec n cv (sp @ [c]) (k - 1), out))
      else Inr (FormatSpec n cv (sp @ [c]) k, out))"

fun vformat ::
    "builtin_format \<Rightarrow> (string, pyval) dict \<Rightarrow> fmt_mode \<Rightarrow> string \<Rightarrow> string \<Rightarrow> exn + string" where
  "vformat bf kw mode out [] = (case mode of Text \<Rightarrow> Inr out | _ \<Rightarrow> Inl ValueError)"
| "vformat bf kw mode out (c # cs) =
     (case fmt_step bf kw mode out c of
        Inl e \<Rightarrow> Inl e
      | Inr (mode', out') \<Rightarrow> vformat bf kw mode' out' cs)"

definition py_format :: "builtin_format \<Rightarrow> string \<Rightarrow> (string, pyval) dict \<Rightarrow> exn + string" where
  "py_format bf template kw = vformat bf kw Text [] template"

text \<open>
  \<^verbatim>\<open>
  tag = str(member)
  try:
      return template.format(user=member.display_name, id=member.id, tag=tag, counter=counter)
  except Exception:
      return f"{member.display_name}'s channel"
  \<close>
  The result is a sum so that an exception that left the function would show.
\<close>

definition fallback_name :: "member \<Rightarrow> string" where
  "fallback_name m = display_name m @ [CHR 0x27] @ ''s channel''"

definition render_channel_name ::
    "builtin_format \<Rightarrow> string \<Rightarrow> member \<Rightarrow> int \<Rightarrow> exn + string" where
  "render_channel_name bf template m c =
     (case py_format bf template (format_kwargs m c) of
        Inr name \<Rightarrow> Inr name
      | Inl e \<Rightarrow> Inr (fallback_name m))"

text \<open>
  Shapes of templates used to state what the renderer does: text without braces, a field
  name without any character that the parser treats specially, and the four keywords.
\<close>

definition plain_text :: "string \<Rightarrow> bool" where
  "plain_text s \<longleftrightarrow> CHR ''{'' \<notin> set s \<and> CHR ''}'' \<notin> set s"

definition plain_name :: "string \<Rightarrow> bool" where
  "plain_name s \<longleftrightarrow> (\<forall>c \<in> set s. c \<notin> set ''{}[:!.'')"

definition placeholders :: "string list" where
  "placeholders = [''user'', ''id'', ''tag'', ''counter'']"

subsection \<open>Joining the creation lobby\<close>

text \<open>
  \<^verbatim>\<open>
  owners = await self.config.guild(guild).owner_channels()
  chan_id = owners.get(str(user_id))
  if chan_id is None: return None
  channel = guild.get_channel(chan_id)
  if not isinstance(channel, discord.VoiceChannel):
      async with self.config.guild(guild).owner_channels() as owners_mut:
          owners_mut.pop(str(user_id), None)
      return None
  return chan_id
  \<close>
\<close>

definition get_owner_channel_id :: "state \<Rightarrow> int \<Rightarrow> int option \<times> state" where
  "get_owner_channel_id s user_id =
     (case dict_get (owner_channels (config s)) user_id of
        None \<Rightarrow> (None, s)
      | Some chan_id \<Rightarrow>
          if \<not> is_voice_channel (platform s) chan_id
          then (None, s\<lparr>config := (config s)\<lparr>owner_channels :=
                           dict_pop user_id (owner_channels (config s))\<rparr>\<rparr>)
          else (Some chan_id, s))"

text \<open>
  \<open>member.move_to(channel)\<close> inside \<open>try ... except discord.HTTPException: pass\<close>, as both
  callers write it.
\<close>

definition move_to :: "state \<Rightarrow> int \<Rightarrow> int \<Rightarrow> move_response \<Rightarrow> state" where
  "move_to s user_id channel_id resp =
     (case resp of
        MoveOk \<Rightarrow> s\<lparr>platform := (platform s)\<lparr>voice_states :=
                      dict_set user_id channel_id (voice_states (platform s))\<rparr>\<rparr>
      | MoveHTTPError \<Rightarrow> s)"

definition owner_overwrite :: overwrite where
  "owner_overwrite = [''manage_channels'', ''move_members'', ''mute_members'', ''deafen_members'']"

definition target_category :: "state \<Rightarrow> channel \<Rightarrow> int option" where
  "target_category s base_channel =
     (case temp_category_id (config s) of
        None \<Rightarrow> category base_channel
      | Some cat_id \<Rightarrow>
          (case get_channel (platform s) cat_id of
             None \<Rightarrow> category base_channel
           | Some cat_obj \<Rightarrow>
               if kind cat_obj = CategoryChannel then Some cat_id else category base_channel))"

definition create_voice_channel :: "state \<Rightarrow> int \<Rightarrow> channel \<Rightarrow> state" where
  "create_voice_channel s new_id ch =
     s\<lparr>platform := (platform s)\<lparr>channels := dict_set new_id ch (channels (platform s))\<rparr>\<rparr>"

text \<open>
  \<open>_handle_creation_join\<close>, lines 268 to 332 of the source, in the order of the source:
  the owner lookup and the reuse path, then the counter, the name, the overwrites, the
  permission check, the category, the creation, the two config writes and the move.
\<close>

definition handle_creation_join ::
    "builtin_format \<Rightarrow> state \<Rightarrow> member \<Rightarrow> channel \<Rightarrow> create_response \<Rightarrow> move_response
       \<Rightarrow> (exn + unit) \<times> state" where
  "handle_creation_join bf s m base_channel create_resp move_resp =
     (let (existing_id, s1) = get_owner_channel_id s (member_id m);
          reuse = (case existing_id of
                     None \<Rightarrow> None
                   | Some eid \<Rightarrow> if is_voice_channel (platform s1) eid then Some eid else None)
      in case reuse of
           Some eid \<Rightarrow>
             (Inr (), move_to (cancel_delete_task s1 eid) (member_id m) eid move_resp)
         | None \<Rightarrow>
             let template = name_template (config s1);
                 (cnt, conf2) = get_next_counter (config s1);
                 s2 = s1\<lparr>config := conf2\<rparr>
             in case render_channel_name bf template m cnt of
                  Inl e \<Rightarrow> (Inl e, s2)
                | Inr new_name \<Rightarrow>
                    let ows = dict_set (member_id m) owner_overwrite (overwrites base_channel)
                    in if \<not> me_manage_channels (platform s2) \<or> \<not> me_move_members (platform s2)
                       then (Inr (), s2)
                       else
                         (case create_resp of
                            CreateHTTPError \<Rightarrow> (Inl HTTPException, s2)
                          | CreateOk new_id \<Rightarrow>
                              let new_channel =
                                    \<lparr>kind = VoiceChannel, channel_name = new_name,
                                     category = target_category s2 base_channel,
                                     overwrites = ows\<rparr>;
                                  s3 = create_voice_channel s2 new_id new_channel;
                                  s4 = s3\<lparr>config := add_temp_channel (config s3) new_id\<rparr>;
                                  s5 = s4\<lparr>config :=
                                          set_owner_channel (config s4) (member_id m) new_id\<rparr>
                              in (Inr (), move_to s5 (member_id m) new_id move_resp)))"

subsection \<open>Transferring ownership\<close>

text \<open>
  \<open>_get_owned_temp_channel_for_ctx\<close>: the caller is in a voice channel, the channel is
  tracked, and the first owner entry naming the channel is the caller's. The command is
  guild-only, so the caller is a member of the guild.
\<close>

definition get_owned_temp_channel_for_ctx :: "state \<Rightarrow> member \<Rightarrow> int option" where
  "get_owned_temp_channel_for_ctx s author =
     (case dict_get (voice_states (platform s)) (member_id author) of
        None \<Rightarrow> None
      | Some channel_id \<Rightarrow>
          if \<not> is_voice_channel (platform s) channel_id then None
          else if channel_id \<notin> set (temp_channels (config s)) then None
          else
            let owner_id = (case find (\<lambda>(uid, cid). cid = channel_id) (owner_channels (config s)) of
                              None \<Rightarrow> None
                            | Some (uid, cid) \<Rightarrow> Some uid)
            in if owner_id \<noteq> Some (member_id author) then None else Some channel_id)"

datatype transfer_reply =
    NoReply
  | TargetIsBot
  | NotSameChannel
  | EditFailed
  | Transferred

definition edit_channel :: "state \<Rightarrow> int \<Rightarrow> string \<Rightarrow> (int, overwrite) dict \<Rightarrow> state" where
  "edit_channel s channel_id new_name ows =
     (case get_channel (platform s) channel_id of
        None \<Rightarrow> s
      | Some ch \<Rightarrow>
          s\<lparr>platform := (platform s)\<lparr>channels :=
               dict_set channel_id (ch\<lparr>channel_name := new_name, overwrites := ows\<rparr>)
                 (channels (platform s))\<rparr>\<rparr>)"

definition channel_overwrites :: "state \<Rightarrow> int \<Rightarrow> (int, overwrite) dict" where
  "channel_overwrites s channel_id =
     (case get_channel (platform s) channel_id of None \<Rightarrow> [] | Some ch \<Rightarrow> overwrites ch)"

text \<open>
  \<open>vch_owner_transfer\<close>, lines 58 to 124 of \<open>VCOwnerCommand.py\<close>. The reply is the message
  the command sends; \<open>NoReply\<close> stands for the return after
  \<open>_get_owned_temp_channel_for_ctx\<close> gave \<open>None\<close>.
\<close>

definition vch_owner_transfer ::
    "builtin_format \<Rightarrow> state \<Rightarrow> member \<Rightarrow> member \<Rightarrow> edit_response
       \<Rightarrow> (exn + transfer_reply) \<times> state" where
  "vch_owner_transfer bf s author new_owner edit_resp =
     (case get_owned_temp_channel_for_ctx s author of
        None \<Rightarrow> (Inr NoReply, s)
      | Some channel_id \<Rightarrow>
          if bot new_owner then (Inr TargetIsBot, s)
          else if dict_get (voice_states (platform s)) (member_id new_owner) \<noteq> Some channel_id
          then (Inr NotSameChannel, s)
          else
            let ows = dict_set (member_id new_owner) owner_overwrite
                        (dict_pop (member_id author) (channel_overwrites s channel_id));
                template = name_template (config s);
                (cnt, conf1) = get_next_counter (config s);
                s1 = s\<lparr>config := conf1\<rparr>
            in case render_channel_name bf template new_owner cnt of
                 Inl e \<Rightarrow> (Inl e, s1)
               | Inr new_name \<Rightarrow>
                   (case edit_resp of
                      EditHTTPError \<Rightarrow> (Inr EditFailed, s1)
                    | EditOk \<Rightarrow>
                        let s2 = edit_channel s1 channel_id new_name ows;
                            s3 = s2\<lparr>config := clear_owner_by_channel (config s2) channel_id\<rparr>;
                            s4 = s3\<lparr>config :=
                                    set_owner_channel (config s3) (member_id new_owner) channel_id\<rparr>
                        in (Inr Transferred, s4)))"

subsection \<open>An example guild\<close>

text \<open>
  A guild with the lobby 1 in category 5, the temp channel 10 owned by user 7, nobody in a
  voice channel and no deletion scheduled. Members 7 and 8 are people.
\<close>

definition example_platform :: platform where
  "example_platform =
     \<lparr>channels =
        [(5, \<lparr>kind = CategoryChannel, channel_name = ''Voice'', category = None,
               overwrites = []\<rparr>),
         (1, \<lparr>kind = VoiceChannel, channel_name = ''Lobby'', category = Some 5,
               overwrites = []\<rparr>),
         (10, \<lparr>kind = VoiceChannel, channel_name = ''Ann'' @ [CHR 0x27] @ ''s channel'',
                category = Some 5, overwrites = [(7, owner_overwrite)]\<rparr>)],
      voice_states = [], me_manage_channels = True, me_move_members = True\<rparr>"

definition example_state :: state where
  "example_state =
     \<lparr>config = default_guild\<lparr>creation_channel_id := Some 1, temp_channels := [10],
                  counter := Some 2, owner_channels := [(7, 10)]\<rparr>,
      platform = example_platform, delete_tasks = [], tasks = []\<rparr>"

definition example_lobby :: channel where
  "example_lobby =
     \<lparr>kind = VoiceChannel, channel_name = ''Lobby'', category = Some 5, overwrites = []\<rparr>"

text \<open>The same guild with users 7 and 8 connected to channel 10.\<close>

definition example_occupied :: state where
  "example_occupied =
     example_state\<lparr>platform := example_platform\<lparr>voice_states := [(7, 10), (8, 10)]\<rparr>\<rparr>"

text \<open>
  The same guild after channel 10 was deleted by hand, so that the owner entry of user 7 is
  stale, and with a bot that may not manage channels.
\<close>

definition example_stale :: state where
  "example_stale =
     example_state\<lparr>platform := example_platform
        \<lparr>channels := [(1, example_lobby)], me_manage_channels := False\<rparr>\<rparr>"

text \<open>A stand-in for the formatting built-ins that raises on every field it is given.\<close>

definition raising_format :: builtin_format where
  "raising_format v rest conv spec = Inl TypeError"

definition ann :: member where
  "ann = \<lparr>member_id = 7, display_name = ''Ann'', member_tag = ''ann#0001'', bot = False\<rparr>"

definition bob :: member where
  "bob = \<lparr>member_id = 8, display_name = ''Bob'', member_tag = ''bob#0002'', bot = False\<rparr>"

section \<open>Properties of the settings store\<close>

subsection \<open>Counter\<close>

lemma get_next_counter_fst: "fst (get_next_counter conf) = counter_value conf"
  by (simp add: get_next_counter_def counter_value_def Let_def)

lemma get_next_counter_snd:
  "snd (get_next_counter conf) = conf\<lparr>counter := Some (counter_value conf + 1)\<rparr>"
  by (simp add: get_next_counter_def counter_value_def Let_def)

lemma counter_value_ge1: "1 \<le> counter_value conf"
  by (simp add: counter_value_def split: option.splits)

lemma counter_value_after: "counter_value (snd (get_next_counter conf)) = counter_value conf + 1"
  using counter_value_ge1 [of conf]
  by (simp add: get_next_counter_snd counter_value_def)

lemma get_next_counters_values:
  "fst (get_next_counters n conf) = map (\<lambda>i. counter_value conf + int i) [0..<n]"
proof (induction n arbitrary: conf)
  case 0
  show ?case by simp
next
  case (Suc n)
  have "fst (get_next_counters (Suc n) conf) =
          counter_value conf # fst (get_next_counters n (snd (get_next_counter conf)))"
    by (simp add: split_def Let_def get_next_counter_fst)
  also have "\<dots> = counter_value conf # map (\<lambda>i. counter_value conf + 1 + int i) [0..<n]"
    by (simp add: Suc.IH counter_value_after)
  also have "\<dots> = map (\<lambda>i. counter_value conf + int i) (0 # map Suc [0..<n])"
    by (simp add: o_def add.assoc)
  also have "0 # map Suc [0..<n] = [0..<Suc n]"
    by (simp add: upt_conv_Cons map_Suc_upt del: upt_Suc)
  finally show ?case .
qed

lemma get_next_counters_counter:
  "counter (snd (get_next_counters n conf)) =
     (if n = 0 then counter conf else Some (counter_value conf + int n))"
proof (induction n arbitrary: conf)
  case 0
  show ?case by simp
next
  case (Suc n)
  have "counter (snd (get_next_counters (Suc n) conf)) =
          counter (snd (get_next_counters n (snd (get_next_counter conf))))"
    by (simp add: split_def Let_def)
  then show ?case
    by (simp add: Suc.IH counter_value_after) (simp add: get_next_counter_snd)
qed

text \<open>
  Claim C7. \<open>get_next_counter\<close> is read-increment-return: a call returns the stored
  counter, with a missing value or a value below 1 read as 1, and leaves the stored counter
  at the returned value plus one. The values returned by any number of calls in a row are
  strictly increasing, so no value is handed out twice.
\<close>

theorem get_next_counter_read_increment_return:
  "fst (get_next_counter conf) =
     (case counter conf of None \<Rightarrow> 1 | Some c \<Rightarrow> if c < 1 then 1 else c)
   \<and> counter (snd (get_next_counter conf)) = Some (fst (get_next_counter conf) + 1)
   \<and> sorted_wrt (<) (fst (get_next_counters n conf))
   \<and> distinct (fst (get_next_counters n conf))"
proof -
  have inc: "sorted_wrt (<) (map (\<lambda>i. counter_value conf + int i) [0..<n])"
    by (simp add: sorted_wrt_map sorted_wrt_upt)
  have inj: "inj_on (\<lambda>i. counter_value conf + int i) (set [0..<n])"
    by (simp add: inj_on_def)
  have dist: "distinct (map (\<lambda>i. counter_value conf + int i) [0..<n])"
    using inj by (simp add: distinct_map)
  show ?thesis
    using inc dist
    by (simp add: get_next_counters_values get_next_counter_fst get_next_counter_snd
        counter_value_def)
qed

subsection \<open>Dictionaries\<close>

lemma fold_dict_pop: "fold dict_pop ks d = filter (\<lambda>(k, v). k \<notin> set ks) d"
proof (induction ks arbitrary: d)
  case Nil
  show ?case by simp
next
  case (Cons k ks)
  have "filter (\<lambda>(k', v). k' \<notin> set ks) (dict_pop k d) = filter (\<lambda>(k', v). k' \<notin> set (k # ks)) d"
    by (induction d) (auto simp: dict_pop_def AList.delete_eq)
  then show ?case by (simp add: Cons.IH)
qed

lemma clear_owner_by_channel_filter:
  assumes "distinct (dict_keys (owner_channels conf))"
  shows "owner_channels (clear_owner_by_channel conf c) =
           filter (\<lambda>(uid, cid). cid \<noteq> c) (owner_channels conf)"
proof -
  let ?d = "owner_channels conf"
  have "filter (\<lambda>(k, v). k \<notin> set (map fst (filter (\<lambda>(uid, cid). cid = c) ?d))) ?d =
        filter (\<lambda>(uid, cid). cid \<noteq> c) ?d"
  proof (rule filter_cong [OF refl])
    fix x assume x: "x \<in> set ?d"
    obtain k v where kv: "x = (k, v)" by (cases x)
    have "k \<in> fst ` {y \<in> set ?d. snd y = c} \<longleftrightarrow> v = c"
    proof
      assume "k \<in> fst ` {y \<in> set ?d. snd y = c}"
      then obtain v' where "(k, v') \<in> set ?d" "v' = c" by auto
      with x kv assms show "v = c"
        by (metis dict_keys_def eq_key_imp_eq_value)
    next
      assume "v = c"
      with x kv show "k \<in> fst ` {y \<in> set ?d. snd y = c}" by force
    qed
    then show "(case x of (k, v) \<Rightarrow> k \<notin> set (map fst (filter (\<lambda>(uid, cid). cid = c) ?d))) =
               (case x of (uid, cid) \<Rightarrow> cid \<noteq> c)"
      by (auto simp: kv split_def)
  qed
  then show ?thesis
    by (simp add: clear_owner_by_channel_def Let_def fold_dict_pop)
qed

lemma dict_set_keys_distinct:
  "distinct (dict_keys d) \<Longrightarrow> distinct (dict_keys (dict_set k v d))"
  by (simp add: dict_keys_def dict_set_def distinct_update)

lemma dict_pop_keys_distinct:
  "distinct (dict_keys d) \<Longrightarrow> distinct (dict_keys (dict_pop k d))"
  by (simp add: dict_keys_def dict_pop_def distinct_delete)

lemma dict_get_set: "dict_get (dict_set k v d) k' = (if k' = k then Some v else dict_get d k')"
  by (simp add: dict_get_def dict_set_def update_conv')

lemma dict_get_pop: "dict_get (dict_pop k d) k' = (if k' = k then None else dict_get d k')"
  by (simp add: dict_get_def dict_pop_def delete_conv')

lemma dict_get_None_iff: "dict_get d k = None \<longleftrightarrow> k \<notin> set (dict_keys d)"
  by (simp add: dict_get_def dict_keys_def map_of_eq_None_iff)

lemma dict_pop_absent: "k \<notin> set (dict_keys d) \<Longrightarrow> dict_pop k d = d"
  by (simp add: dict_pop_def dict_keys_def)

lemma dict_set_values_distinct:
  "distinct (dict_keys d) \<Longrightarrow> distinct (dict_values d)
     \<Longrightarrow> v \<notin> set (dict_values (dict_pop k d))
     \<Longrightarrow> distinct (dict_values (dict_set k v d))"
proof (induction d)
  case Nil
  show ?case by (simp add: dict_values_def dict_set_def)
next
  case (Cons p d)
  obtain k' v' where p: "p = (k', v')" by (cases p)
  have upd_sub: "set (map snd (AList.update k v d)) \<subseteq> insert v (set (map snd d))"
    by (induction d) auto
  show ?case
  proof (cases "k' = k")
    case True
    with Cons.prems p have "k \<notin> fst ` set d"
      by (simp add: dict_keys_def)
    then have "AList.delete k d = d" by simp
    with Cons.prems p True show ?thesis
      by (simp add: dict_values_def dict_set_def dict_pop_def)
  next
    case False
    with Cons p upd_sub show ?thesis
      by (auto simp: dict_values_def dict_set_def dict_pop_def dict_keys_def)
  qed
qed

lemma filter_values_distinct:
  "distinct (dict_values d) \<Longrightarrow> distinct (dict_values (filter P d))"
  by (simp add: dict_values_def distinct_map_filter)

lemma filter_keys_distinct:
  "distinct (dict_keys d) \<Longrightarrow> distinct (dict_keys (filter P d))"
  by (simp add: dict_keys_def distinct_map_filter)

lemma owners_inv_clear:
  "owners_inv (owner_channels conf) \<Longrightarrow> owners_inv (owner_channels (clear_owner_by_channel conf c))"
  by (simp add: owners_inv_def clear_owner_by_channel_filter filter_values_distinct
      filter_keys_distinct)

lemma clear_owner_no_value:
  "distinct (dict_keys (owner_channels conf)) \<Longrightarrow>
     c \<notin> set (dict_values (owner_channels (clear_owner_by_channel conf c)))"
  by (auto simp: clear_owner_by_channel_filter dict_values_def)

lemma dict_pop_values_subset: "set (dict_values (dict_pop k d)) \<subseteq> set (dict_values d)"
  by (auto simp: dict_values_def dict_pop_def AList.delete_eq)

lemma owners_inv_set:
  assumes "owners_inv (owner_channels conf)"
    and "c \<notin> set (dict_values (dict_pop u (owner_channels conf)))"
  shows "owners_inv (owner_channels (set_owner_channel conf u c))"
  using assms
  by (simp add: owners_inv_def set_owner_channel_def dict_set_keys_distinct
      dict_set_values_distinct)

lemma temp_add_distinct:
  "distinct (temp_channels conf) \<Longrightarrow> distinct (temp_channels (add_temp_channel conf c))"
  by (simp add: add_temp_channel_def)

lemma temp_remove_distinct:
  "distinct (temp_channels conf) \<Longrightarrow> distinct (temp_channels (remove_temp_channel conf c))"
  by (simp add: remove_temp_channel_def)

lemma temp_add_set: "set (temp_channels (add_temp_channel conf c)) = insert c (set (temp_channels conf))"
  by (auto simp: add_temp_channel_def)

lemma temp_remove_set:
  "distinct (temp_channels conf) \<Longrightarrow>
     set (temp_channels (remove_temp_channel conf c)) = set (temp_channels conf) - {c}"
  by (auto simp: remove_temp_channel_def)

subsection \<open>The owner dictionary\<close>

text \<open>
  Claim C3, as the code has it. \<open>_set_owner_channel\<close> is the single assignment
  \<open>owners[str(user_id)] = channel_id\<close>: it replaces the entry of the user, so a user keeps
  at most one entry, and it leaves every other entry as it was, so it does not clear an
  entry of another user for the same channel. When no other user owns the channel the
  write keeps both properties of the owner dictionary; that is so after
  \<open>_clear_owner_by_channel\<close> for the channel, which is what the transfer command calls
  first.
\<close>

theorem set_owner_channel_keeps_one_entry_per_user:
  assumes "owners_inv (owner_channels conf)"
  shows "dict_get (owner_channels (set_owner_channel conf u c)) u = Some c
       \<and> distinct (dict_keys (owner_channels (set_owner_channel conf u c)))
       \<and> (\<forall>u'. u' \<noteq> u \<longrightarrow>
            dict_get (owner_channels (set_owner_channel conf u c)) u' =
            dict_get (owner_channels conf) u')
       \<and> (c \<notin> set (dict_values (dict_pop u (owner_channels conf))) \<longrightarrow>
            owners_inv (owner_channels (set_owner_channel conf u c)))
       \<and> owners_inv (owner_channels (set_owner_channel (clear_owner_by_channel conf c) u c))"
proof -
  have keys: "distinct (dict_keys (owner_channels conf))"
    using assms by (simp add: owners_inv_def)
  have "c \<notin> set (dict_values (dict_pop u (owner_channels (clear_owner_by_channel conf c))))"
    using clear_owner_no_value [OF keys, of c] dict_pop_values_subset by fastforce
  then have "owners_inv (owner_channels (set_owner_channel (clear_owner_by_channel conf c) u c))"
    using owners_inv_clear [OF assms] by (rule owners_inv_set [rotated])
  moreover have "distinct (dict_keys (owner_channels (set_owner_channel conf u c)))"
    using keys by (simp add: set_owner_channel_def dict_set_keys_distinct)
  ultimately show ?thesis
    using assms by (simp add: owners_inv_set) (simp add: set_owner_channel_def dict_get_set)
qed

theorem set_owner_channel_witness:
  "owners_inv (owner_channels (default_guild\<lparr>owner_channels := [(1, 10), (2, 20)]\<rparr>))
   \<and> owner_channels (set_owner_channel
        (clear_owner_by_channel (default_guild\<lparr>owner_channels := [(1, 10), (2, 20)]\<rparr>) 10)
        2 10) = [(2, 10)]
   \<and> owners_inv (owner_channels (set_owner_channel
        (clear_owner_by_channel (default_guild\<lparr>owner_channels := [(1, 10), (2, 20)]\<rparr>) 10)
        2 10))"
proof -
  have inv: "owners_inv (owner_channels (default_guild\<lparr>owner_channels := [(1, 10), (2, 20)]\<rparr>))"
    by (simp add: owners_inv_def dict_keys_def dict_values_def)
  have val: "owner_channels (set_owner_channel
        (clear_owner_by_channel (default_guild\<lparr>owner_channels := [(1, 10), (2, 20)]\<rparr>) 10)
        2 10) = [(2, 10)]"
    by (simp add: set_owner_channel_def clear_owner_by_channel_def dict_set_def dict_pop_def)
  from set_owner_channel_keeps_one_entry_per_user [OF inv, of 2 10] inv val
  show ?thesis by blast
qed

text \<open>
  The write alone does not clear the entry of another owner of the channel: with user 1
  owning channel 10, setting user 2 as owner of channel 10 leaves two entries for it.
\<close>

theorem set_owner_channel_counterexample:
  "owners_inv [(1, 10)]
   \<and> owner_channels (set_owner_channel (default_guild\<lparr>owner_channels := [(1, 10)]\<rparr>) 2 10)
       = [(1, 10), (2, 10)]
   \<and> \<not> owners_inv (owner_channels
         (set_owner_channel (default_guild\<lparr>owner_channels := [(1, 10)]\<rparr>) 2 10))"
  by (simp add: owners_inv_def set_owner_channel_def dict_set_def dict_keys_def dict_values_def
      default_guild_def)

section \<open>Properties of the deletion timers\<close>

lemma dict_get_Some_mem: "dict_get d k = Some v \<Longrightarrow> (k, v) \<in> set d"
  by (simp add: dict_get_def map_of_SomeD)

lemma dict_mem_get: "distinct (dict_keys d) \<Longrightarrow> (k, v) \<in> set d \<Longrightarrow> dict_get d k = Some v"
  by (simp add: dict_get_def dict_keys_def)

lemma dict_pop_mem: "(k', v) \<in> set (dict_pop k d) \<longleftrightarrow> (k', v) \<in> set d \<and> k' \<noteq> k"
  by (auto simp: dict_pop_def AList.delete_eq)

lemma dict_pop_idem: "dict_pop k (dict_pop k d) = dict_pop k d"
  by (simp add: dict_pop_def delete_idem)

lemma dict_set_mem_key: "k \<in> set (dict_keys (dict_set k v d))"
  by (simp add: dict_keys_def dict_set_def dom_update)

lemma dict_set_absent: "k \<notin> set (dict_keys d) \<Longrightarrow> dict_set k v d = d @ [(k, v)]"
  by (induction d) (auto simp: dict_keys_def dict_set_def)

lemma length_set_task_status [simp]: "length (set_task_status t st ts) = length ts"
  by (simp add: set_task_status_def)

lemma nth_set_task_status_status:
  "i < length ts \<Longrightarrow>
     task_status (set_task_status t st ts ! i) = (if i = t then st else task_status (ts ! i))"
  by (simp add: set_task_status_def)

lemma nth_set_task_status_channel [simp]:
  "i < length ts \<Longrightarrow> task_channel (set_task_status t st ts ! i) = task_channel (ts ! i)"
  by (simp add: set_task_status_def nth_list_update)

lemma schedule_config [simp]: "config (schedule_delete_temp_channel s c) = config s"
  by (simp add: schedule_delete_temp_channel_def Let_def)

lemma schedule_platform [simp]: "platform (schedule_delete_temp_channel s c) = platform s"
  by (simp add: schedule_delete_temp_channel_def Let_def)

lemma cancel_config [simp]: "config (cancel_delete_task s c) = config s"
  by (simp add: cancel_delete_task_def task_finally_def Let_def split: option.splits)

lemma cancel_platform [simp]: "platform (cancel_delete_task s c) = platform s"
  by (simp add: cancel_delete_task_def task_finally_def Let_def split: option.splits)

lemma cancel_absent: "dict_get (delete_tasks s) c = None \<Longrightarrow> cancel_delete_task s c = s"
  by (simp add: cancel_delete_task_def)

lemma cancel_no_entry: "dict_get (delete_tasks (cancel_delete_task s c)) c = None"
  by (auto simp: cancel_delete_task_def task_finally_def Let_def dict_get_pop split: option.splits)

lemma cancel_tasks:
  "tasks (cancel_delete_task s c) =
     (case dict_get (delete_tasks s) c of
        None \<Rightarrow> tasks s
      | Some t \<Rightarrow> if is_sleeping s t then set_task_status t Cancelled (tasks s) else tasks s)"
  by (simp add: cancel_delete_task_def task_finally_def Let_def is_sleeping_def split: option.splits)

lemma cancel_registry:
  assumes "tasks_inv s"
  shows "delete_tasks (cancel_delete_task s c) = dict_pop c (delete_tasks s)"
proof (cases "dict_get (delete_tasks s) c")
  case None
  then show ?thesis
    by (simp add: cancel_absent dict_get_None_iff dict_pop_absent)
next
  case (Some t)
  then have "(c, t) \<in> set (delete_tasks s)" by (rule dict_get_Some_mem)
  with assms have "task_channel (tasks s ! t) = c"
    by (auto simp: tasks_inv_def)
  with Some show ?thesis
    by (simp add: cancel_delete_task_def task_finally_def Let_def is_sleeping_def dict_pop_idem)
qed

lemma cancel_no_sleeping:
  assumes "tasks_inv s"
  shows "no_sleeping_task_for (cancel_delete_task s c) c"
  unfolding no_sleeping_task_for_def
proof (intro allI impI notI)
  fix t
  assume t: "t < length (tasks (cancel_delete_task s c))"
    and ch: "task_channel (tasks (cancel_delete_task s c) ! t) = c"
    and st: "task_status (tasks (cancel_delete_task s c) ! t) = Sleeping"
  have len: "t < length (tasks s)"
    using t by (simp add: cancel_tasks split: option.splits if_splits)
  have ch': "task_channel (tasks s ! t) = c"
    using ch len by (simp add: cancel_tasks split: option.splits if_splits)
  have st': "task_status (tasks s ! t) = Sleeping"
    using st len by (simp add: cancel_tasks nth_set_task_status_status split: option.splits if_splits)
  from assms len st' ch' have reg: "dict_get (delete_tasks s) c = Some t"
    by (auto simp: tasks_inv_def)
  have "is_sleeping s t" using len st' by (simp add: is_sleeping_def)
  with reg len have "task_status (tasks (cancel_delete_task s c) ! t) = Cancelled"
    by (simp add: cancel_tasks nth_set_task_status_status)
  with st show False by simp
qed


lemma tasks_inv_schedule:
  assumes "tasks_inv s"
  shows "tasks_inv (schedule_delete_temp_channel s c)"
proof (cases "c \<in> set (dict_keys (delete_tasks s)) \<or> length (channel_members (platform s) c) \<noteq> 0")
  case True
  with assms show ?thesis by (auto simp: schedule_delete_temp_channel_def)
next
  case False
  then have absent: "c \<notin> set (dict_keys (delete_tasks s))" by simp
  let ?n = "length (tasks s)"
  let ?new = "\<lparr>task_channel = c, task_status = Sleeping\<rparr>"
  have reg: "delete_tasks (schedule_delete_temp_channel s c) = delete_tasks s @ [(c, ?n)]"
    using False by (simp add: schedule_delete_temp_channel_def Let_def dict_set_absent)
  have tks: "tasks (schedule_delete_temp_channel s c) = tasks s @ [?new]"
    using False by (simp add: schedule_delete_temp_channel_def Let_def)
  have d: "distinct (dict_keys (delete_tasks s @ [(c, ?n)]))"
    using assms absent by (simp add: tasks_inv_def dict_keys_def)
  have e: "\<forall>(c', t) \<in> set (delete_tasks s @ [(c, ?n)]).
             t < length (tasks s @ [?new]) \<and> task_channel ((tasks s @ [?new]) ! t) = c'"
    using assms by (auto simp: tasks_inv_def nth_append)
  have sl: "\<forall>t < length (tasks s @ [?new]). task_status ((tasks s @ [?new]) ! t) = Sleeping \<longrightarrow>
             dict_get (delete_tasks s @ [(c, ?n)]) (task_channel ((tasks s @ [?new]) ! t)) = Some t"
  proof (intro allI impI)
    fix t assume t: "t < length (tasks s @ [?new])"
      and st: "task_status ((tasks s @ [?new]) ! t) = Sleeping"
    show "dict_get (delete_tasks s @ [(c, ?n)]) (task_channel ((tasks s @ [?new]) ! t)) = Some t"
    proof (cases "t < ?n")
      case True
      with st assms have "dict_get (delete_tasks s) (task_channel (tasks s ! t)) = Some t"
        by (auto simp: tasks_inv_def nth_append)
      with True show ?thesis by (simp add: dict_get_def nth_append)
    next
      case False
      with t have "t = ?n" by simp
      moreover have "map_of (delete_tasks s) c = None"
        using absent by (simp add: map_of_eq_None_iff dict_keys_def)
      ultimately show ?thesis by (simp add: dict_get_def nth_append map_add_def)
    qed
  qed
  show ?thesis
    unfolding tasks_inv_def reg tks using d e sl by blast
qed

lemma tasks_inv_cong:
  "delete_tasks s' = delete_tasks s \<Longrightarrow> tasks s' = tasks s \<Longrightarrow> tasks_inv s' = tasks_inv s"
  by (simp add: tasks_inv_def)

lemma task_finally_fields [simp]:
  "delete_tasks (task_finally t c st s) = dict_pop c (delete_tasks s)"
  "tasks (task_finally t c st s) = set_task_status t st (tasks s)"
  "config (task_finally t c st s) = config s"
  "platform (task_finally t c st s) = platform s"
  by (simp_all add: task_finally_def)

lemma tasks_inv_task_finally:
  assumes inv: "tasks_inv s" and st: "st \<noteq> Sleeping"
    and only: "\<forall>t' < length (tasks s).
                 task_status (tasks s ! t') = Sleeping \<and> task_channel (tasks s ! t') = c \<longrightarrow> t' = t"
  shows "tasks_inv (task_finally t c st s)"
  unfolding tasks_inv_def
proof (intro conjI)
  show "distinct (dict_keys (delete_tasks (task_finally t c st s)))"
    using inv by (simp add: tasks_inv_def dict_pop_keys_distinct)
  show "\<forall>(c', t') \<in> set (delete_tasks (task_finally t c st s)).
          t' < length (tasks (task_finally t c st s)) \<and>
          task_channel (tasks (task_finally t c st s) ! t') = c'"
  proof (intro ballI, clarify)
    fix c' t' assume "(c', t') \<in> set (delete_tasks (task_finally t c st s))"
    then have "(c', t') \<in> set (delete_tasks s)" by (simp add: dict_pop_mem)
    with inv have "t' < length (tasks s)" and "task_channel (tasks s ! t') = c'"
      by (auto simp: tasks_inv_def)
    then show "t' < length (tasks (task_finally t c st s)) \<and>
          task_channel (tasks (task_finally t c st s) ! t') = c'"
      by simp
  qed
  show "\<forall>t' < length (tasks (task_finally t c st s)).
          task_status (tasks (task_finally t c st s) ! t') = Sleeping \<longrightarrow>
          dict_get (delete_tasks (task_finally t c st s))
            (task_channel (tasks (task_finally t c st s) ! t')) = Some t'"
  proof (intro allI impI)
    fix t'
    assume lt: "t' < length (tasks (task_finally t c st s))"
      and sl: "task_status (tasks (task_finally t c st s) ! t') = Sleeping"
    have lt': "t' < length (tasks s)" using lt by simp
    have ne: "t' \<noteq> t" using sl lt' st by (auto simp: nth_set_task_status_status)
    have sl': "task_status (tasks s ! t') = Sleeping"
      using sl lt' ne by (simp add: nth_set_task_status_status)
    have g: "dict_get (delete_tasks s) (task_channel (tasks s ! t')) = Some t'"
      using inv lt' sl' by (auto simp: tasks_inv_def)
    have "task_channel (tasks s ! t') \<noteq> c"
      using only lt' sl' ne by blast
    with g lt' show "dict_get (delete_tasks (task_finally t c st s))
            (task_channel (tasks (task_finally t c st s) ! t')) = Some t'"
      by (simp add: dict_get_pop)
  qed
qed

lemma sleeping_registered_unique:
  assumes "tasks_inv s" and "dict_get (delete_tasks s) c = Some t"
  shows "\<forall>t' < length (tasks s).
           task_status (tasks s ! t') = Sleeping \<and> task_channel (tasks s ! t') = c \<longrightarrow> t' = t"
  using assms by (auto simp: tasks_inv_def)

lemma sleeping_channel_registered:
  assumes "tasks_inv s" and "is_sleeping s t"
  shows "dict_get (delete_tasks s) (task_channel (tasks s ! t)) = Some t"
  using assms by (auto simp: tasks_inv_def is_sleeping_def)

lemma set_task_status_same:
  "t < length ts \<Longrightarrow> set_task_status t (task_status (ts ! t)) ts = ts"
  by (simp add: set_task_status_def)

lemma cancel_as_finally:
  assumes inv: "tasks_inv s" and reg: "dict_get (delete_tasks s) c = Some t"
  shows "cancel_delete_task s c =
           task_finally t c (if is_sleeping s t then Cancelled else task_status (tasks s ! t)) s"
proof -
  have mem: "(c, t) \<in> set (delete_tasks s)" using reg by (rule dict_get_Some_mem)
  with inv have lt: "t < length (tasks s)" and ch: "task_channel (tasks s ! t) = c"
    by (auto simp: tasks_inv_def)
  show ?thesis
    using reg ch lt
    by (simp add: cancel_delete_task_def task_finally_def Let_def is_sleeping_def dict_pop_idem
        set_task_status_same)
qed

lemma tasks_inv_cancel:
  assumes inv: "tasks_inv s"
  shows "tasks_inv (cancel_delete_task s c)"
proof (cases "dict_get (delete_tasks s) c")
  case None
  with inv show ?thesis by (simp add: cancel_absent)
next
  case (Some t)
  have "tasks_inv (task_finally t c (if is_sleeping s t then Cancelled else task_status (tasks s ! t)) s)"
  proof (rule tasks_inv_task_finally [OF inv _ sleeping_registered_unique [OF inv Some]])
    have "(c, t) \<in> set (delete_tasks s)" using Some by (rule dict_get_Some_mem)
    with inv have "t < length (tasks s)" by (auto simp: tasks_inv_def)
    then show "(if is_sleeping s t then Cancelled else task_status (tasks s ! t)) \<noteq> Sleeping"
      by (simp add: is_sleeping_def)
  qed
  then show ?thesis by (simp add: cancel_as_finally [OF inv Some])
qed

lemma elapse_not_sleeping:
  "\<not> is_sleeping s t \<Longrightarrow> delete_temp_channel_after_delay s t resp = (Inr (), s)"
  by (simp add: delete_temp_channel_after_delay_def)

lemma elapse_tasks:
  "is_sleeping s t \<Longrightarrow>
     tasks (snd (delete_temp_channel_after_delay s t resp)) = set_task_status t Finished (tasks s)"
  by (simp add: delete_temp_channel_after_delay_def Let_def task_finally_def
      split: delete_response.splits)

lemma elapse_registry:
  "is_sleeping s t \<Longrightarrow>
     delete_tasks (snd (delete_temp_channel_after_delay s t resp)) =
       dict_pop (task_channel (tasks s ! t)) (delete_tasks s)"
  by (simp add: delete_temp_channel_after_delay_def Let_def task_finally_def
      split: delete_response.splits)

lemma tasks_inv_elapse:
  assumes inv: "tasks_inv s"
  shows "tasks_inv (snd (delete_temp_channel_after_delay s t resp))"
proof (cases "is_sleeping s t")
  case False
  with inv show ?thesis by (simp add: elapse_not_sleeping)
next
  case True
  let ?c = "task_channel (tasks s ! t)"
  have "tasks_inv (task_finally t ?c Finished s)"
    by (rule tasks_inv_task_finally
        [OF inv _ sleeping_registered_unique [OF inv sleeping_channel_registered [OF inv True]]])
      simp
  moreover have "tasks_inv (snd (delete_temp_channel_after_delay s t resp)) =
                 tasks_inv (task_finally t ?c Finished s)"
    by (rule tasks_inv_cong) (simp_all add: elapse_tasks [OF True] elapse_registry [OF True])
  ultimately show ?thesis by simp
qed

lemma tasks_inv_step: "tasks_inv s \<Longrightarrow> tasks_inv (timer_step s e)"
  by (cases e) (simp_all add: tasks_inv_schedule tasks_inv_cancel tasks_inv_elapse)

lemma tasks_inv_run: "tasks_inv s \<Longrightarrow> tasks_inv (timer_run evs s)"
  unfolding timer_run_def
  by (induction evs arbitrary: s) (simp_all add: tasks_inv_step)


lemma dict_pop_keys_mem: "k' \<in> set (dict_keys (dict_pop k d)) \<longleftrightarrow> k' \<in> set (dict_keys d) \<and> k' \<noteq> k"
  by (auto simp: dict_keys_def dict_pop_def delete_keys)

lemma no_sleeping_schedule:
  "no_sleeping_task_for s c \<Longrightarrow> c' \<noteq> c \<Longrightarrow> no_sleeping_task_for (schedule_delete_temp_channel s c') c"
  by (auto simp: no_sleeping_task_for_def schedule_delete_temp_channel_def Let_def nth_append)

lemma no_sleeping_status_change:
  assumes "no_sleeping_task_for s c" and "tasks s' = set_task_status t st (tasks s)"
    and "st \<noteq> Sleeping"
  shows "no_sleeping_task_for s' c"
  using assms by (auto simp: no_sleeping_task_for_def nth_set_task_status_status)

lemma no_sleeping_cancel:
  assumes "no_sleeping_task_for s c"
  shows "no_sleeping_task_for (cancel_delete_task s c') c"
proof (cases "dict_get (delete_tasks s) c'")
  case None
  with assms show ?thesis by (simp add: cancel_absent)
next
  case (Some t)
  show ?thesis
  proof (cases "is_sleeping s t")
    case True
    with Some have "tasks (cancel_delete_task s c') = set_task_status t Cancelled (tasks s)"
      by (simp add: cancel_tasks)
    with assms show ?thesis by (rule no_sleeping_status_change) simp
  next
    case False
    with Some have "tasks (cancel_delete_task s c') = tasks s"
      by (simp add: cancel_tasks)
    with assms show ?thesis by (simp add: no_sleeping_task_for_def)
  qed
qed

lemma no_sleeping_elapse:
  assumes "no_sleeping_task_for s c"
  shows "no_sleeping_task_for (snd (delete_temp_channel_after_delay s t resp)) c"
proof (cases "is_sleeping s t")
  case False
  with assms show ?thesis by (simp add: elapse_not_sleeping)
next
  case True
  from assms elapse_tasks [OF True] show ?thesis
    by (rule no_sleeping_status_change) simp
qed

lemma no_sleeping_step:
  "no_sleeping_task_for s c \<Longrightarrow> e \<noteq> Schedule c \<Longrightarrow> no_sleeping_task_for (timer_step s e) c"
  by (cases e) (simp_all add: no_sleeping_schedule no_sleeping_cancel no_sleeping_elapse)

lemma elapse_channels:
  "set (dict_keys (channels (platform (snd (delete_temp_channel_after_delay s t resp)))))
     \<supseteq> set (dict_keys (channels (platform s))) - {task_channel (tasks s ! t)}"
  by (auto simp: delete_temp_channel_after_delay_def Let_def dict_pop_keys_mem
      split: delete_response.splits)

lemma elapse_platform_not_sleeping:
  "\<not> is_sleeping s t \<Longrightarrow> platform (snd (delete_temp_channel_after_delay s t resp)) = platform s"
  by (simp add: elapse_not_sleeping)

lemma channel_exists_step:
  assumes ex: "channel_exists s c" and ns: "no_sleeping_task_for s c"
  shows "channel_exists (timer_step s e) c"
proof (cases e)
  case (Schedule c')
  with ex show ?thesis by (simp add: channel_exists_def)
next
  case (Cancel c')
  with ex show ?thesis by (simp add: channel_exists_def)
next
  case (Elapse t resp)
  show ?thesis
  proof (cases "is_sleeping s t")
    case False
    with ex Elapse show ?thesis by (simp add: channel_exists_def elapse_platform_not_sleeping)
  next
    case True
    with ns have "task_channel (tasks s ! t) \<noteq> c"
      by (auto simp: no_sleeping_task_for_def is_sleeping_def)
    with ex elapse_channels [of s t resp] Elapse show ?thesis
      by (auto simp: channel_exists_def)
  qed
qed

lemma never_deleted_run:
  assumes "\<forall>e \<in> set evs. e \<noteq> Schedule c"
    and "no_sleeping_task_for s c" and "channel_exists s c"
  shows "channel_exists (timer_run evs s) c \<and> no_sleeping_task_for (timer_run evs s) c"
  using assms unfolding timer_run_def
proof (induction evs arbitrary: s)
  case Nil
  then show ?case by simp
next
  case (Cons e evs)
  have "no_sleeping_task_for (timer_step s e) c"
    using Cons.prems by (simp add: no_sleeping_step)
  moreover have "channel_exists (timer_step s e) c"
    using Cons.prems by (simp add: channel_exists_step)
  ultimately show ?case using Cons.IH [of "timer_step s e"] Cons.prems by simp
qed

text \<open>
  Claim C5. Scheduling a deletion for a channel and cancelling it before the delay has
  elapsed leaves no registry entry for the channel and changes neither the configuration
  nor the platform; afterwards no task for the channel is sleeping, so whatever timer
  events follow, short of a new scheduling for this channel, the channel is never deleted.
  Cancelling for a channel without a registered timer changes nothing, and cancelling
  twice is cancelling once.
\<close>

theorem schedule_then_cancel_never_deletes:
  assumes "tasks_inv s"
  shows "dict_get (delete_tasks (cancel_delete_task (schedule_delete_temp_channel s c) c)) c = None
       \<and> config (cancel_delete_task (schedule_delete_temp_channel s c) c) = config s
       \<and> platform (cancel_delete_task (schedule_delete_temp_channel s c) c) = platform s
       \<and> no_sleeping_task_for (cancel_delete_task (schedule_delete_temp_channel s c) c) c
       \<and> (\<forall>evs. (\<forall>e \<in> set evs. e \<noteq> Schedule c) \<longrightarrow> channel_exists s c \<longrightarrow>
             channel_exists
               (timer_run evs (cancel_delete_task (schedule_delete_temp_channel s c) c)) c)
       \<and> (dict_get (delete_tasks s) c = None \<longrightarrow> cancel_delete_task s c = s)
       \<and> cancel_delete_task (cancel_delete_task s c) c = cancel_delete_task s c"
proof -
  let ?s2 = "cancel_delete_task (schedule_delete_temp_channel s c) c"
  have ns: "no_sleeping_task_for ?s2 c"
    by (rule cancel_no_sleeping [OF tasks_inv_schedule [OF assms]])
  have run: "\<forall>evs. (\<forall>e \<in> set evs. e \<noteq> Schedule c) \<longrightarrow> channel_exists s c \<longrightarrow>
             channel_exists (timer_run evs ?s2) c"
  proof (intro allI impI)
    fix evs assume evs: "\<forall>e \<in> set evs. e \<noteq> Schedule c" and ex: "channel_exists s c"
    from ex have "channel_exists ?s2 c" by (simp add: channel_exists_def)
    with never_deleted_run [OF evs ns] show "channel_exists (timer_run evs ?s2) c" by simp
  qed
  have idem: "cancel_delete_task (cancel_delete_task s c) c = cancel_delete_task s c"
    by (rule cancel_absent [OF cancel_no_entry])
  show ?thesis
    using ns run idem by (simp add: cancel_no_entry cancel_absent)
qed

theorem schedule_then_cancel_witness:
  "tasks_inv example_state
   \<and> dict_get (delete_tasks
        (cancel_delete_task (schedule_delete_temp_channel example_state 10) 10)) 10 = None
   \<and> channel_exists
        (timer_run [Elapse 0 DeleteOk]
           (cancel_delete_task (schedule_delete_temp_channel example_state 10) 10)) 10"
proof -
  have inv: "tasks_inv example_state"
    by (simp add: tasks_inv_def example_state_def dict_keys_def)
  have ex: "channel_exists example_state 10"
    by (simp add: channel_exists_def example_state_def example_platform_def dict_keys_def)
  have evs: "\<forall>e \<in> set [Elapse 0 DeleteOk]. e \<noteq> Schedule 10"
    by simp
  from schedule_then_cancel_never_deletes [OF inv, of 10] evs ex inv
  show ?thesis by blast
qed

text \<open>
  Claim C6. \<open>_schedule_delete_temp_channel\<close> returns the state unchanged (registry, tasks,
  configuration and platform) when the registry already has an entry for the channel or
  the channel has a member; so scheduling twice in a row is scheduling once.
\<close>

theorem schedule_delete_is_idempotent:
  "(c \<in> set (dict_keys (delete_tasks s)) \<or> length (channel_members (platform s) c) \<noteq> 0
      \<longrightarrow> schedule_delete_temp_channel s c = s)
   \<and> schedule_delete_temp_channel (schedule_delete_temp_channel s c) c =
       schedule_delete_temp_channel s c"
proof -
  have "schedule_delete_temp_channel (schedule_delete_temp_channel s c) c =
          schedule_delete_temp_channel s c"
  proof (cases "c \<in> set (dict_keys (delete_tasks s)) \<or> length (channel_members (platform s) c) \<noteq> 0")
    case True
    then have "schedule_delete_temp_channel s c = s"
      by (auto simp: schedule_delete_temp_channel_def)
    then show ?thesis by simp
  next
    case False
    then have "c \<in> set (dict_keys (delete_tasks (schedule_delete_temp_channel s c)))"
      by (simp add: schedule_delete_temp_channel_def Let_def dict_set_mem_key)
    then show ?thesis
      by (simp add: schedule_delete_temp_channel_def [of "schedule_delete_temp_channel s c"])
  qed
  then show ?thesis by (auto simp: schedule_delete_temp_channel_def)
qed

theorem schedule_delete_witness:
  "10 \<in> set (dict_keys (delete_tasks (schedule_delete_temp_channel example_state 10)))
   \<and> schedule_delete_temp_channel (schedule_delete_temp_channel example_state 10) 10 =
       schedule_delete_temp_channel example_state 10"
  using schedule_delete_is_idempotent [of 10 "schedule_delete_temp_channel example_state 10"]
  by (simp add: schedule_delete_temp_channel_def example_state_def example_platform_def
      channel_members_def dict_keys_def dict_set_def Let_def)

subsection \<open>The elapsed timer\<close>

lemma clear_owner_by_channel_purges:
  "c \<notin> set (dict_values (owner_channels (clear_owner_by_channel conf c)))"
  by (force simp: clear_owner_by_channel_def Let_def fold_dict_pop dict_values_def)

lemma clear_owner_by_channel_others:
  "(u, c') \<in> set (owner_channels (clear_owner_by_channel conf c)) \<Longrightarrow>
     (u, c') \<in> set (owner_channels conf) \<and> c' \<noteq> c"
  by (force simp: clear_owner_by_channel_def Let_def fold_dict_pop)

lemma clear_owner_by_channel_temp [simp]:
  "temp_channels (clear_owner_by_channel conf c) = temp_channels conf"
  by (simp add: clear_owner_by_channel_def Let_def)

lemma clear_owner_by_channel_counter [simp]:
  "counter (clear_owner_by_channel conf c) = counter conf"
  by (simp add: clear_owner_by_channel_def Let_def)

lemma remove_temp_channel_owners [simp]:
  "owner_channels (remove_temp_channel conf c) = owner_channels conf"
  by (simp add: remove_temp_channel_def)

lemma remove_temp_channel_counter [simp]:
  "counter (remove_temp_channel conf c) = counter conf"
  by (simp add: remove_temp_channel_def)

lemma remove_temp_channel_list:
  "temp_channels (remove_temp_channel conf c) = remove1 c (temp_channels conf)"
  by (simp add: remove_temp_channel_def remove1_idem)

lemma reclaim_config_temp:
  "temp_channels (reclaim_config conf c) = remove1 c (temp_channels conf)"
  by (simp add: reclaim_config_def remove_temp_channel_list)

lemma reclaim_config_owners:
  "c \<notin> set (dict_values (owner_channels (reclaim_config conf c)))"
  by (simp add: reclaim_config_def clear_owner_by_channel_purges)

lemma reclaim_config_owners_filter:
  "distinct (dict_keys (owner_channels conf)) \<Longrightarrow>
     owner_channels (reclaim_config conf c) = filter (\<lambda>(uid, cid). cid \<noteq> c) (owner_channels conf)"
  by (simp add: reclaim_config_def clear_owner_by_channel_filter)

lemma reclaim_config_counter [simp]: "counter (reclaim_config conf c) = counter conf"
  by (simp add: reclaim_config_def)

text \<open>
  Claim C4. When the delay of a sleeping timer has elapsed, the timer looks at the members
  of its channel again. If there is none, and the platform answers the deletion with
  success or with \<open>NotFound\<close>, the channel is gone, its id is removed from the tracked
  list, no owner entry points to it any more (the other entries stay), and the result is
  a normal return. If there is a member, configuration and platform are unchanged. Either
  way the timer removes its registry entry, finishes, and creates no new task.
\<close>

theorem timer_elapsed_reclaims_or_exits:
  assumes sl: "is_sleeping s t"
    and run: "delete_temp_channel_after_delay s t resp = (r, s')"
  shows "(length (channel_members (platform s) (task_channel (tasks s ! t))) = 0 \<and>
            resp \<noteq> DeleteHTTPError \<longrightarrow>
            r = Inr ()
          \<and> (resp = DeleteOk \<longrightarrow> \<not> channel_exists s' (task_channel (tasks s ! t)))
          \<and> (resp = DeleteNotFound \<longrightarrow> platform s' = platform s)
          \<and> temp_channels (config s') = remove1 (task_channel (tasks s ! t)) (temp_channels (config s))
          \<and> (distinct (temp_channels (config s)) \<longrightarrow>
                task_channel (tasks s ! t) \<notin> set (temp_channels (config s')))
          \<and> task_channel (tasks s ! t) \<notin> set (dict_values (owner_channels (config s')))
          \<and> (distinct (dict_keys (owner_channels (config s))) \<longrightarrow>
                owner_channels (config s') =
                  filter (\<lambda>(uid, cid). cid \<noteq> task_channel (tasks s ! t))
                    (owner_channels (config s))))
       \<and> (length (channel_members (platform s) (task_channel (tasks s ! t))) \<noteq> 0 \<longrightarrow>
            r = Inr () \<and> config s' = config s \<and> platform s' = platform s)
       \<and> dict_get (delete_tasks s') (task_channel (tasks s ! t)) = None
       \<and> length (tasks s') = length (tasks s)
       \<and> task_status (tasks s' ! t) = Finished
       \<and> \<not> is_sleeping s' t"
proof -
  let ?c = "task_channel (tasks s ! t)"
  have lt: "t < length (tasks s)" using sl by (simp add: is_sleeping_def)
  have s': "s' = snd (delete_temp_channel_after_delay s t resp)"
    and r: "r = fst (delete_temp_channel_after_delay s t resp)"
    using run by simp_all
  have tks: "tasks s' = set_task_status t Finished (tasks s)"
    unfolding s' by (rule elapse_tasks [OF sl])
  have reg: "delete_tasks s' = dict_pop ?c (delete_tasks s)"
    unfolding s' by (rule elapse_registry [OF sl])
  have fin: "dict_get (delete_tasks s') ?c = None
       \<and> length (tasks s') = length (tasks s)
       \<and> task_status (tasks s' ! t) = Finished
       \<and> \<not> is_sleeping s' t"
    using lt by (simp add: tks reg dict_get_pop nth_set_task_status_status is_sleeping_def)
  have occ: "length (channel_members (platform s) ?c) \<noteq> 0 \<longrightarrow>
            r = Inr () \<and> config s' = config s \<and> platform s' = platform s"
    using sl unfolding s' r by (simp add: delete_temp_channel_after_delay_def Let_def)
  have empty: "length (channel_members (platform s) ?c) = 0 \<and> resp \<noteq> DeleteHTTPError \<longrightarrow>
            r = Inr ()
          \<and> (resp = DeleteOk \<longrightarrow> \<not> channel_exists s' ?c)
          \<and> (resp = DeleteNotFound \<longrightarrow> platform s' = platform s)
          \<and> config s' = reclaim_config (config s) ?c"
    using sl unfolding s' r
    by (cases resp)
      (simp_all add: delete_temp_channel_after_delay_def Let_def channel_exists_def
        dict_pop_keys_mem)
  show ?thesis
    using fin occ empty
    by (auto simp: reclaim_config_temp reclaim_config_owners reclaim_config_owners_filter)
qed


lemma example_scheduled:
  "schedule_delete_temp_channel example_state 10 =
     example_state\<lparr>delete_tasks := [(10, 0)],
                    tasks := [\<lparr>task_channel = 10, task_status = Sleeping\<rparr>]\<rparr>"
  by (simp add: schedule_delete_temp_channel_def example_state_def example_platform_def
      channel_members_def dict_keys_def dict_set_def Let_def)

theorem timer_elapsed_witness:
  "is_sleeping (schedule_delete_temp_channel example_state 10) 0
   \<and> temp_channels (config (snd (delete_temp_channel_after_delay
        (schedule_delete_temp_channel example_state 10) 0 DeleteOk))) = []
   \<and> owner_channels (config (snd (delete_temp_channel_after_delay
        (schedule_delete_temp_channel example_state 10) 0 DeleteOk))) = []
   \<and> \<not> channel_exists (snd (delete_temp_channel_after_delay
        (schedule_delete_temp_channel example_state 10) 0 DeleteOk)) 10
   \<and> dict_get (delete_tasks (snd (delete_temp_channel_after_delay
        (schedule_delete_temp_channel example_state 10) 0 DeleteOk))) 10 = None
   \<and> config (snd (delete_temp_channel_after_delay
        ((schedule_delete_temp_channel example_state 10)
           \<lparr>platform := example_platform\<lparr>voice_states := [(7, 10)]\<rparr>\<rparr>) 0 DeleteOk))
       = config example_state"
proof -
  let ?s = "schedule_delete_temp_channel example_state 10"
  let ?s2 = "?s\<lparr>platform := example_platform\<lparr>voice_states := [(7, 10)]\<rparr>\<rparr>"
  have sl: "is_sleeping ?s 0" and sl2: "is_sleeping ?s2 0"
    by (simp_all add: example_scheduled is_sleeping_def)
  have run: "delete_temp_channel_after_delay ?s 0 DeleteOk =
               (fst (delete_temp_channel_after_delay ?s 0 DeleteOk),
                snd (delete_temp_channel_after_delay ?s 0 DeleteOk))"
    and run2: "delete_temp_channel_after_delay ?s2 0 DeleteOk =
               (fst (delete_temp_channel_after_delay ?s2 0 DeleteOk),
                snd (delete_temp_channel_after_delay ?s2 0 DeleteOk))"
    by simp_all
  have ch: "task_channel (tasks ?s ! 0) = 10" "task_channel (tasks ?s2 ! 0) = 10"
    by (simp_all add: example_scheduled)
  have empty: "length (channel_members (platform ?s) 10) = 0"
    by (simp add: example_scheduled example_state_def example_platform_def channel_members_def)
  have occupied: "length (channel_members (platform ?s2) 10) \<noteq> 0"
    by (simp add: channel_members_def)
  have conf: "temp_channels (config ?s) = [10]" "owner_channels (config ?s) = [(7, 10)]"
    "config ?s2 = config example_state"
    by (simp_all add: example_scheduled example_state_def)
  from timer_elapsed_reclaims_or_exits [OF sl run] timer_elapsed_reclaims_or_exits [OF sl2 run2]
    ch empty occupied conf sl
  show ?thesis by (simp add: dict_keys_def)
qed

section \<open>Properties of the name renderer\<close>

lemma vformat_text:
  "plain_text lit \<Longrightarrow> vformat bf kw Text out (lit @ rest) = vformat bf kw Text (out @ lit) rest"
  by (induction lit arbitrary: out) (auto simp: plain_text_def)

lemma vformat_field_name:
  "plain_name name \<Longrightarrow>
     vformat bf kw (FieldName n) out (name @ rest) = vformat bf kw (FieldName (n @ name)) out rest"
  by (induction name arbitrary: n) (auto simp: plain_name_def field_name_step_def)

lemma vformat_open_field:
  assumes "plain_name name"
  shows "vformat bf kw LBrace out (name @ CHR ''}'' # rest) =
           (case format_field bf kw name None [] of
              Inl e \<Rightarrow> Inl e
            | Inr s \<Rightarrow> vformat bf kw Text (out @ s) rest)"
proof (cases name)
  case Nil
  then show ?thesis
    by (simp add: field_name_step_def end_field_def split: sum.splits)
next
  case (Cons x xs)
  with assms have x: "x \<notin> set ''{}[:!.''" and xs: "plain_name xs"
    by (simp_all add: plain_name_def)
  have "vformat bf kw LBrace out (name @ CHR ''}'' # rest) =
          vformat bf kw (FieldName [x]) out (xs @ CHR ''}'' # rest)"
    using x Cons by (simp add: field_name_step_def)
  also have "\<dots> = vformat bf kw (FieldName ([x] @ xs)) out (CHR ''}'' # rest)"
    by (rule vformat_field_name [OF xs])
  also have "\<dots> = (case format_field bf kw name None [] of
              Inl e \<Rightarrow> Inl e
            | Inr s \<Rightarrow> vformat bf kw Text (out @ s) rest)"
    using Cons by (simp add: field_name_step_def end_field_def split: sum.splits)
  finally show ?thesis .
qed

lemma plain_name_no_accessor: "plain_name name \<Longrightarrow> takeWhile (\<lambda>c. \<not> is_accessor c) name = name"
  by (induction name) (auto simp: plain_name_def is_accessor_def)

lemma format_field_unknown:
  assumes "plain_name name" and "name \<notin> set placeholders"
  shows "\<exists>e. format_field bf (format_kwargs m c) name None [] = Inl e"
proof -
  have "dict_get (format_kwargs m c) name = None"
    using assms(2) by (simp add: dict_get_def format_kwargs_def placeholders_def)
  then show ?thesis
    by (simp add: format_field_def Let_def plain_name_no_accessor [OF assms(1)])
qed

lemma py_format_unknown_placeholder:
  assumes "plain_text lit" and "plain_name name" and "name \<notin> set placeholders"
  shows "\<exists>e. py_format bf (lit @ ''{'' @ name @ ''}'' @ rest) (format_kwargs m c) = Inl e"
proof -
  obtain e where e: "format_field bf (format_kwargs m c) name None [] = Inl e"
    using format_field_unknown [OF assms(2,3)] by blast
  have "py_format bf (lit @ ''{'' @ name @ ''}'' @ rest) (format_kwargs m c) =
          vformat bf (format_kwargs m c) Text ([] @ lit) (CHR ''{'' # name @ CHR ''}'' # rest)"
    unfolding py_format_def using vformat_text [OF assms(1)] by simp
  also have "\<dots> = vformat bf (format_kwargs m c) LBrace lit (name @ CHR ''}'' # rest)"
    by simp
  also have "\<dots> = Inl e"
    by (simp add: vformat_open_field [OF assms(2)] e)
  finally show ?thesis by blast
qed

text \<open>
  Claim C8. \<open>_render_channel_name\<close> always returns a name. The name is the formatted
  template when \<open>str.format\<close> returns, and the display name followed by \<open>'s channel\<close> when
  \<open>str.format\<close> raises, whatever it raises. A template whose first replacement field is a
  plain name other than \<open>user\<close>, \<open>id\<close>, \<open>tag\<close> and \<open>counter\<close> gives the fallback, and so do
  an unclosed field and a single closing brace; a template of known placeholders and
  doubled braces is formatted.
\<close>

theorem render_channel_name_never_throws:
  "render_channel_name bf template m c =
     Inr (case py_format bf template (format_kwargs m c) of
            Inr name \<Rightarrow> name
          | Inl e \<Rightarrow> display_name m @ [CHR 0x27] @ ''s channel'')
   \<and> (plain_text lit \<and> plain_name name \<and> name \<notin> set placeholders \<longrightarrow>
        render_channel_name bf (lit @ ''{'' @ name @ ''}'' @ rest) m c =
          Inr (display_name m @ [CHR 0x27] @ ''s channel''))
   \<and> render_channel_name bf ''{user'' m c = Inr (display_name m @ [CHR 0x27] @ ''s channel'')
   \<and> render_channel_name bf ''a}b'' m c = Inr (display_name m @ [CHR 0x27] @ ''s channel'')
   \<and> render_channel_name bf ''#{counter} {tag} {{{id}}}'' m c =
        Inr (''#'' @ str_int c @ '' '' @ member_tag m @ '' {'' @ str_int (member_id m) @ ''}'')"
proof -
  have total: "render_channel_name bf template m c =
     Inr (case py_format bf template (format_kwargs m c) of
            Inr name \<Rightarrow> name
          | Inl e \<Rightarrow> display_name m @ [CHR 0x27] @ ''s channel'')"
    by (simp add: render_channel_name_def fallback_name_def split: sum.splits)
  have unknown: "plain_text lit \<and> plain_name name \<and> name \<notin> set placeholders \<longrightarrow>
        render_channel_name bf (lit @ ''{'' @ name @ ''}'' @ rest) m c =
          Inr (display_name m @ [CHR 0x27] @ ''s channel'')"
  proof
    assume a: "plain_text lit \<and> plain_name name \<and> name \<notin> set placeholders"
    then obtain e where
      "py_format bf (lit @ ''{'' @ name @ ''}'' @ rest) (format_kwargs m c) = Inl e"
      using py_format_unknown_placeholder [of lit name bf rest m c] by blast
    then show "render_channel_name bf (lit @ ''{'' @ name @ ''}'' @ rest) m c =
          Inr (display_name m @ [CHR 0x27] @ ''s channel'')"
      by (simp add: render_channel_name_def fallback_name_def)
  qed
  have malformed1: "render_channel_name bf ''{user'' m c =
      Inr (display_name m @ [CHR 0x27] @ ''s channel'')"
    by (simp add: render_channel_name_def py_format_def field_name_step_def fallback_name_def)
  have malformed2: "render_channel_name bf ''a}b'' m c =
      Inr (display_name m @ [CHR 0x27] @ ''s channel'')"
    by (simp add: render_channel_name_def py_format_def fallback_name_def)
  have known: "render_channel_name bf ''#{counter} {tag} {{{id}}}'' m c =
        Inr (''#'' @ str_int c @ '' '' @ member_tag m @ '' {'' @ str_int (member_id m) @ ''}'')"
    by (simp add: render_channel_name_def py_format_def field_name_step_def end_field_def
        format_field_def is_accessor_def is_digit_def dict_get_def format_kwargs_def py_str_def)
  show ?thesis
    using total unknown malformed1 malformed2 known by blast
qed

theorem render_channel_name_witness:
  "plain_text ''Room '' \<and> plain_name ''nick'' \<and> ''nick'' \<notin> set placeholders
   \<and> render_channel_name (\<lambda>v rest conv spec. Inl TypeError) ''Room {nick} #{counter}'' ann 3 =
       Inr (''Ann'' @ [CHR 0x27] @ ''s channel'')"
proof -
  have h: "plain_text ''Room '' \<and> plain_name ''nick'' \<and> ''nick'' \<notin> set placeholders"
    by (simp add: plain_text_def plain_name_def placeholders_def)
  from render_channel_name_never_throws
    [of "\<lambda>v rest conv spec. Inl TypeError" "''x''" ann 3 "''Room ''" "''nick''" "'' #{counter}''"] h
  show ?thesis by (simp add: ann_def)
qed

section \<open>Properties of the lobby join and of the transfer\<close>

lemmas example_defs =
  example_state_def example_platform_def example_stale_def example_occupied_def
  example_lobby_def ann_def bob_def default_guild_def raising_format_def owner_overwrite_def

lemmas join_defs =
  handle_creation_join_def get_owner_channel_id_def is_voice_channel_def get_channel_def
  dict_get_def dict_pop_def dict_set_def get_next_counter_def move_to_def
  cancel_delete_task_def target_category_def create_voice_channel_def add_temp_channel_def
  set_owner_channel_def Let_def

lemmas render_defs =
  render_channel_name_def py_format_def field_name_step_def end_field_def format_field_def
  is_accessor_def is_digit_def format_kwargs_def py_str_def fallback_name_def

lemmas transfer_defs =
  vch_owner_transfer_def get_owned_temp_channel_for_ctx_def is_voice_channel_def get_channel_def
  dict_get_def dict_pop_def dict_set_def get_next_counter_def edit_channel_def
  channel_overwrites_def clear_owner_by_channel_def set_owner_channel_def Let_def

lemma render_channel_name_Inr:
  "\<exists>name. render_channel_name bf template m c = Inr name"
  by (simp add: render_channel_name_def split: sum.splits)

lemma get_owner_channel_id_reuse:
  "dict_get (owner_channels (config s)) uid = Some eid \<Longrightarrow> is_voice_channel (platform s) eid
     \<Longrightarrow> get_owner_channel_id s uid = (Some eid, s)"
  by (simp add: get_owner_channel_id_def)

lemma get_owner_channel_id_none:
  assumes "\<forall>eid. dict_get (owner_channels (config s)) uid = Some eid \<longrightarrow>
             \<not> is_voice_channel (platform s) eid"
  shows "get_owner_channel_id s uid =
           (None, s\<lparr>config := (config s)\<lparr>owner_channels :=
                       dict_pop uid (owner_channels (config s))\<rparr>\<rparr>)"
proof (cases "dict_get (owner_channels (config s)) uid")
  case None
  then have "dict_pop uid (owner_channels (config s)) = owner_channels (config s)"
    by (simp add: dict_get_None_iff dict_pop_absent)
  with None show ?thesis by (simp add: get_owner_channel_id_def)
next
  case (Some eid)
  with assms show ?thesis by (simp add: get_owner_channel_id_def)
qed

lemma move_to_fields [simp]:
  "config (move_to s u c resp) = config s"
  "delete_tasks (move_to s u c resp) = delete_tasks s"
  "tasks (move_to s u c resp) = tasks s"
  "channels (platform (move_to s u c resp)) = channels (platform s)"
  "me_manage_channels (platform (move_to s u c resp)) = me_manage_channels (platform s)"
  "me_move_members (platform (move_to s u c resp)) = me_move_members (platform s)"
  by (simp_all add: move_to_def split: move_response.splits)

lemma move_to_voice:
  "dict_get (voice_states (platform (move_to s u c MoveOk))) u = Some c"
  by (simp add: move_to_def dict_get_set)

lemma move_to_no_sleeping:
  "no_sleeping_task_for (move_to s u c' resp) c = no_sleeping_task_for s c"
  by (simp add: no_sleeping_task_for_def)

text \<open>
  Claim C9. A member whose owner entry names a voice channel that still exists joins the
  lobby: the handler cancels the pending deletion of that channel, moves the member into
  it and returns. The configuration (counter, tracked list, owner dictionary) and the
  channels of the guild are unchanged, the registry has no entry for the channel, no task
  for it is left sleeping, and the member is in the channel when the move succeeds.
\<close>

theorem lobby_join_reuses_owned_channel:
  assumes owner: "dict_get (owner_channels (config s)) (member_id m) = Some eid"
    and exists: "is_voice_channel (platform s) eid"
    and run: "handle_creation_join bf s m base_channel create_resp move_resp = (r, s')"
  shows "r = Inr ()
       \<and> s' = move_to (cancel_delete_task s eid) (member_id m) eid move_resp
       \<and> config s' = config s
       \<and> channels (platform s') = channels (platform s)
       \<and> dict_get (delete_tasks s') eid = None
       \<and> (tasks_inv s \<longrightarrow> no_sleeping_task_for s' eid)
       \<and> (move_resp = MoveOk \<longrightarrow>
            dict_get (voice_states (platform s')) (member_id m) = Some eid)"
proof -
  have "handle_creation_join bf s m base_channel create_resp move_resp =
          (Inr (), move_to (cancel_delete_task s eid) (member_id m) eid move_resp)"
    using exists by (simp add: handle_creation_join_def get_owner_channel_id_reuse [OF owner exists])
  with run have r: "r = Inr ()"
    and s': "s' = move_to (cancel_delete_task s eid) (member_id m) eid move_resp"
    by simp_all
  show ?thesis
    unfolding s' r
    by (simp add: cancel_no_entry move_to_no_sleeping cancel_no_sleeping move_to_voice)
qed

theorem lobby_join_reuse_witness:
  "dict_get (owner_channels (config (schedule_delete_temp_channel example_state 10)))
      (member_id ann) = Some 10
   \<and> is_voice_channel (platform (schedule_delete_temp_channel example_state 10)) 10
   \<and> config (snd (handle_creation_join raising_format
        (schedule_delete_temp_channel example_state 10) ann example_lobby (CreateOk 11) MoveOk))
       = config example_state
   \<and> dict_get (delete_tasks (snd (handle_creation_join raising_format
        (schedule_delete_temp_channel example_state 10) ann example_lobby (CreateOk 11) MoveOk)))
        10 = None
   \<and> dict_get (voice_states (platform (snd (handle_creation_join raising_format
        (schedule_delete_temp_channel example_state 10) ann example_lobby (CreateOk 11) MoveOk))))
        (member_id ann) = Some 10"
proof -
  let ?s = "schedule_delete_temp_channel example_state 10"
  have owner: "dict_get (owner_channels (config ?s)) (member_id ann) = Some 10"
    by (simp add: example_defs dict_get_def)
  have exists: "is_voice_channel (platform ?s) 10"
    by (simp add: example_defs is_voice_channel_def get_channel_def dict_get_def)
  have run: "handle_creation_join raising_format ?s ann example_lobby (CreateOk 11) MoveOk =
      (fst (handle_creation_join raising_format ?s ann example_lobby (CreateOk 11) MoveOk),
       snd (handle_creation_join raising_format ?s ann example_lobby (CreateOk 11) MoveOk))"
    by simp
  have conf: "config ?s = config example_state"
    by simp
  from lobby_join_reuses_owned_channel [OF owner exists run] owner exists conf
  show ?thesis by metis
qed

text \<open>
  Claim C2, as the code has it. A member with no owner entry, or with an entry for a
  channel that is gone, joins the lobby while the bot lacks the permission to manage
  channels or to move members: the handler returns normally, creates no channel, and
  leaves the platform, the timers and the tracked list as they were. The owner dictionary
  is what it was except for the stale entry of this member, which the lookup purges.
\<close>

theorem lobby_join_without_permission:
  assumes stale: "\<forall>eid. dict_get (owner_channels (config s)) (member_id m) = Some eid \<longrightarrow>
                    \<not> is_voice_channel (platform s) eid"
    and perm: "\<not> me_manage_channels (platform s) \<or> \<not> me_move_members (platform s)"
    and run: "handle_creation_join bf s m base_channel create_resp move_resp = (r, s')"
  shows "r = Inr ()
       \<and> platform s' = platform s
       \<and> delete_tasks s' = delete_tasks s \<and> tasks s' = tasks s
       \<and> temp_channels (config s') = temp_channels (config s)
       \<and> owner_channels (config s') = dict_pop (member_id m) (owner_channels (config s))
       \<and> (dict_get (owner_channels (config s)) (member_id m) = None \<longrightarrow>
            owner_channels (config s') = owner_channels (config s))"
proof -
  let ?s1 = "s\<lparr>config := (config s)\<lparr>owner_channels :=
                 dict_pop (member_id m) (owner_channels (config s))\<rparr>\<rparr>"
  let ?s2 = "?s1\<lparr>config := snd (get_next_counter (config ?s1))\<rparr>"
  obtain new_name where
    name: "render_channel_name bf (name_template (config ?s1)) m
             (fst (get_next_counter (config ?s1))) = Inr new_name"
    using render_channel_name_Inr by blast
  have "handle_creation_join bf s m base_channel create_resp move_resp = (Inr (), ?s2)"
    using perm name
    by (auto simp add: handle_creation_join_def get_owner_channel_id_none [OF stale] Let_def
        split_def)
  with run have r: "r = Inr ()" and s': "s' = ?s2" by simp_all
  have absent: "dict_get (owner_channels (config s)) (member_id m) = None \<longrightarrow>
                  dict_pop (member_id m) (owner_channels (config s)) = owner_channels (config s)"
    by (simp add: dict_get_None_iff dict_pop_absent)
  show ?thesis
    unfolding s' r using absent by (simp add: get_next_counter_snd)
qed


theorem lobby_join_without_permission_witness:
  "dict_get (owner_channels (config example_stale)) (member_id ann) = Some 10
   \<and> \<not> is_voice_channel (platform example_stale) 10
   \<and> \<not> me_manage_channels (platform example_stale)
   \<and> platform (snd (handle_creation_join raising_format example_stale ann example_lobby
        (CreateOk 11) MoveOk)) = platform example_stale
   \<and> temp_channels (config (snd (handle_creation_join raising_format example_stale ann
        example_lobby (CreateOk 11) MoveOk))) = [10]
   \<and> owner_channels (config (snd (handle_creation_join raising_format example_stale ann
        example_lobby (CreateOk 11) MoveOk))) = []"
proof -
  have owner: "dict_get (owner_channels (config example_stale)) (member_id ann) = Some 10"
    by (simp add: example_defs dict_get_def)
  have gone: "\<not> is_voice_channel (platform example_stale) 10"
    by (simp add: example_defs is_voice_channel_def get_channel_def dict_get_def)
  have stale: "\<forall>eid. dict_get (owner_channels (config example_stale)) (member_id ann) = Some eid
                 \<longrightarrow> \<not> is_voice_channel (platform example_stale) eid"
    using owner gone by simp
  have perm: "\<not> me_manage_channels (platform example_stale)
                \<or> \<not> me_move_members (platform example_stale)"
    by (simp add: example_defs)
  have run: "handle_creation_join raising_format example_stale ann example_lobby
               (CreateOk 11) MoveOk =
      (fst (handle_creation_join raising_format example_stale ann example_lobby
               (CreateOk 11) MoveOk),
       snd (handle_creation_join raising_format example_stale ann example_lobby
               (CreateOk 11) MoveOk))"
    by simp
  from lobby_join_without_permission [OF stale perm run] owner gone
  show ?thesis by (simp add: example_defs dict_pop_def)
qed

text \<open>
  The configuration is not exactly what it was: user 7 has a stale entry and the bot may
  not manage channels, and after the join the entry is purged and the counter went from 2
  to 3; for user 8, who has no entry, the counter goes from 2 to 3 as well.
\<close>

theorem lobby_join_without_permission_counterexample:
  "dict_get (owner_channels (config example_stale)) (member_id ann) = Some 10
   \<and> \<not> is_voice_channel (platform example_stale) 10
   \<and> dict_get (owner_channels (config example_stale)) (member_id bob) = None
   \<and> \<not> me_manage_channels (platform example_stale)
   \<and> counter (config example_stale) = Some 2
   \<and> owner_channels (config example_stale) = [(7, 10)]
   \<and> counter (config (snd (handle_creation_join raising_format example_stale ann example_lobby
        (CreateOk 11) MoveOk))) = Some 3
   \<and> owner_channels (config (snd (handle_creation_join raising_format example_stale ann
        example_lobby (CreateOk 11) MoveOk))) = []
   \<and> counter (config (snd (handle_creation_join raising_format example_stale bob example_lobby
        (CreateOk 11) MoveOk))) = Some 3"
  by (simp add: example_defs join_defs render_defs)


subsection \<open>Transfer\<close>

lemma owned_channel_is_voice:
  "get_owned_temp_channel_for_ctx s author = Some cid \<Longrightarrow> is_voice_channel (platform s) cid"
  by (simp add: get_owned_temp_channel_for_ctx_def Let_def split: option.splits if_splits)

lemma is_voice_channel_get:
  "is_voice_channel p cid \<Longrightarrow> \<exists>ch. get_channel p cid = Some ch"
  by (simp add: is_voice_channel_def split: option.splits)

lemma edit_channel_fields:
  assumes "get_channel (platform s) cid = Some ch"
  shows "config (edit_channel s cid new_name ows) = config s"
    and "get_channel (platform (edit_channel s cid new_name ows)) cid =
           Some (ch\<lparr>channel_name := new_name, overwrites := ows\<rparr>)"
  using assms by (simp_all add: edit_channel_def get_channel_def dict_get_set)

lemma edit_channel_config [simp]: "config (edit_channel s cid new_name ows) = config s"
  by (simp add: edit_channel_def split: option.splits)

lemma set_owner_channel_fields [simp]:
  "counter (set_owner_channel conf u c) = counter conf"
  "temp_channels (set_owner_channel conf u c) = temp_channels conf"
  by (simp_all add: set_owner_channel_def)

lemma set_owner_channel_get:
  "dict_get (owner_channels (set_owner_channel conf u c)) u = Some c"
  by (simp add: set_owner_channel_def dict_get_set)

text \<open>
  Claim C1, as the code has it. In a transfer that passes the checks (the caller owns the
  tracked channel they are in, the target is no bot and is in the same channel), the new
  name is rendered from the new owner and the counter value stored before the call, read
  as 1 when it is missing or below 1, and the call takes that value from the counter: the
  stored counter afterwards is that value plus one, whether the edit succeeds or fails. A
  transfer that is rejected by a check leaves the whole state, and so the counter, as it
  was.
\<close>

theorem transfer_takes_next_counter:
  assumes run: "vch_owner_transfer bf s author new_owner edit_resp = (r, s')"
  shows "(get_owned_temp_channel_for_ctx s author = Some cid \<and> \<not> bot new_owner \<and>
          dict_get (voice_states (platform s)) (member_id new_owner) = Some cid \<longrightarrow>
            counter (config s') = Some (counter_value (config s) + 1)
          \<and> (edit_resp = EditOk \<longrightarrow>
                r = Inr Transferred
              \<and> (\<exists>ch. get_channel (platform s') cid = Some ch \<and>
                    render_channel_name bf (name_template (config s)) new_owner
                      (counter_value (config s)) = Inr (channel_name ch))
              \<and> dict_get (owner_channels (config s')) (member_id new_owner) = Some cid)
          \<and> (edit_resp = EditHTTPError \<longrightarrow>
                r = Inr EditFailed \<and> platform s' = platform s
              \<and> owner_channels (config s') = owner_channels (config s)))
       \<and> (get_owned_temp_channel_for_ctx s author = None \<or> bot new_owner \<or>
          dict_get (voice_states (platform s)) (member_id new_owner) \<noteq>
            get_owned_temp_channel_for_ctx s author \<longrightarrow>
            s' = s)"
proof -
  have rejected: "get_owned_temp_channel_for_ctx s author = None \<or> bot new_owner \<or>
          dict_get (voice_states (platform s)) (member_id new_owner) \<noteq>
            get_owned_temp_channel_for_ctx s author \<longrightarrow> s' = s"
    using run by (auto simp: vch_owner_transfer_def split: option.splits if_splits)
  have accepted: "counter (config s') = Some (counter_value (config s) + 1)
          \<and> (edit_resp = EditOk \<longrightarrow>
                r = Inr Transferred
              \<and> (\<exists>ch. get_channel (platform s') cid = Some ch \<and>
                    render_channel_name bf (name_template (config s)) new_owner
                      (counter_value (config s)) = Inr (channel_name ch))
              \<and> dict_get (owner_channels (config s')) (member_id new_owner) = Some cid)
          \<and> (edit_resp = EditHTTPError \<longrightarrow>
                r = Inr EditFailed \<and> platform s' = platform s
              \<and> owner_channels (config s') = owner_channels (config s))"
    if valid: "get_owned_temp_channel_for_ctx s author = Some cid" "\<not> bot new_owner"
      "dict_get (voice_states (platform s)) (member_id new_owner) = Some cid"
  proof -
    let ?s1 = "s\<lparr>config := snd (get_next_counter (config s))\<rparr>"
    let ?ows = "dict_set (member_id new_owner) owner_overwrite
                  (dict_pop (member_id author) (channel_overwrites s cid))"
    obtain new_name where
      name: "render_channel_name bf (name_template (config s)) new_owner
               (counter_value (config s)) = Inr new_name"
      using render_channel_name_Inr by blast
    obtain ch where ch: "get_channel (platform ?s1) cid = Some ch"
      using is_voice_channel_get [OF owned_channel_is_voice [OF valid(1)]] by auto
    let ?s2 = "edit_channel ?s1 cid new_name ?ows"
    have unfold: "vch_owner_transfer bf s author new_owner edit_resp =
        (case edit_resp of
           EditHTTPError \<Rightarrow> (Inr EditFailed, ?s1)
         | EditOk \<Rightarrow>
             (Inr Transferred,
              ?s2\<lparr>config := set_owner_channel (clear_owner_by_channel (config ?s2) cid)
                               (member_id new_owner) cid\<rparr>))"
      using valid name
      by (simp add: vch_owner_transfer_def Let_def split_def get_next_counter_fst
          split: edit_response.splits)
    show ?thesis
    proof (cases edit_resp)
      case EditHTTPError
      with run unfold have "r = Inr EditFailed" "s' = ?s1" by simp_all
      with EditHTTPError show ?thesis by (simp add: get_next_counter_snd)
    next
      case EditOk
      with run unfold have r: "r = Inr Transferred"
        and s': "s' = ?s2\<lparr>config := set_owner_channel (clear_owner_by_channel (config ?s2) cid)
                               (member_id new_owner) cid\<rparr>"
        by simp_all
      have "counter (config s') = Some (counter_value (config s) + 1)"
        unfolding s' by (simp add: get_next_counter_snd)
      moreover have "get_channel (platform s') cid =
                       Some (ch\<lparr>channel_name := new_name, overwrites := ?ows\<rparr>)"
        unfolding s' using edit_channel_fields(2) [OF ch] by simp
      moreover have "dict_get (owner_channels (config s')) (member_id new_owner) = Some cid"
        unfolding s' by (simp add: set_owner_channel_get)
      ultimately show ?thesis using r EditOk name by simp
    qed
  qed
  show ?thesis using rejected accepted by blast
qed


theorem transfer_witness:
  "get_owned_temp_channel_for_ctx example_occupied ann = Some 10
   \<and> \<not> bot bob
   \<and> dict_get (voice_states (platform example_occupied)) (member_id bob) = Some 10
   \<and> counter (config (snd (vch_owner_transfer raising_format example_occupied ann bob EditOk)))
       = Some 3
   \<and> fst (vch_owner_transfer raising_format example_occupied ann bob EditOk) = Inr Transferred
   \<and> get_owned_temp_channel_for_ctx example_occupied bob = None
   \<and> snd (vch_owner_transfer raising_format example_occupied bob ann EditOk) = example_occupied"
proof -
  have owned: "get_owned_temp_channel_for_ctx example_occupied ann = Some 10"
    by (simp add: example_defs get_owned_temp_channel_for_ctx_def is_voice_channel_def
        get_channel_def dict_get_def)
  have not_owned: "get_owned_temp_channel_for_ctx example_occupied bob = None"
    by (simp add: example_defs get_owned_temp_channel_for_ctx_def is_voice_channel_def
        get_channel_def dict_get_def)
  have person: "\<not> bot bob" by (simp add: bob_def)
  have same: "dict_get (voice_states (platform example_occupied)) (member_id bob) = Some 10"
    by (simp add: example_defs dict_get_def)
  have cv: "counter_value (config example_occupied) = 2"
    by (simp add: example_defs counter_value_def)
  have run: "vch_owner_transfer raising_format example_occupied ann bob EditOk =
      (fst (vch_owner_transfer raising_format example_occupied ann bob EditOk),
       snd (vch_owner_transfer raising_format example_occupied ann bob EditOk))"
    and run2: "vch_owner_transfer raising_format example_occupied bob ann EditOk =
      (fst (vch_owner_transfer raising_format example_occupied bob ann EditOk),
       snd (vch_owner_transfer raising_format example_occupied bob ann EditOk))"
    by simp_all
  from transfer_takes_next_counter [OF run, of 10] transfer_takes_next_counter [OF run2, of 10]
    owned not_owned person same cv
  show ?thesis by simp
qed

text \<open>
  The stored counter does change: user 7 transfers channel 10 to user 8, the transfer
  succeeds, and the counter goes from 2 to 3.
\<close>

theorem transfer_counter_counterexample:
  "get_owned_temp_channel_for_ctx example_occupied ann = Some 10
   \<and> \<not> bot bob
   \<and> dict_get (voice_states (platform example_occupied)) (member_id bob) = Some 10
   \<and> fst (vch_owner_transfer raising_format example_occupied ann bob EditOk) = Inr Transferred
   \<and> counter (config example_occupied) = Some 2
   \<and> counter (config (snd (vch_owner_transfer raising_format example_occupied ann bob EditOk)))
       = Some 3"
  by (simp add: example_defs transfer_defs render_defs)

section \<open>The tracked list is a set\<close>

lemma get_next_counter_temp [simp]:
  "temp_channels (snd (get_next_counter conf)) = temp_channels conf"
  by (simp add: get_next_counter_snd)

lemma join_temp_channels:
  "temp_channels (config (snd (handle_creation_join bf s m base cr mr))) = temp_channels (config s)
   \<or> (\<exists>new_id. temp_channels (config (snd (handle_creation_join bf s m base cr mr))) =
         temp_channels (add_temp_channel (config s) new_id))"
  by (auto simp: handle_creation_join_def get_owner_channel_id_def Let_def split_def
      create_voice_channel_def add_temp_channel_def
      split: option.splits sum.splits create_response.splits if_splits)

lemma elapse_temp_channels:
  "temp_channels (config (snd (delete_temp_channel_after_delay s t resp))) = temp_channels (config s)
   \<or> temp_channels (config (snd (delete_temp_channel_after_delay s t resp))) =
         temp_channels (remove_temp_channel (config s) (task_channel (tasks s ! t)))"
  by (auto simp: delete_temp_channel_after_delay_def Let_def reclaim_config_def
      split: delete_response.splits)

lemma transfer_temp_channels:
  "temp_channels (config (snd (vch_owner_transfer bf s author new_owner er))) =
     temp_channels (config s)"
  by (auto simp: vch_owner_transfer_def Let_def split_def
      split: option.splits sum.splits edit_response.splits)

lemma timer_step_temp_distinct:
  "distinct (temp_channels (config s)) \<Longrightarrow> distinct (temp_channels (config (timer_step s e)))"
proof (cases e)
  case (Elapse t resp)
  assume d: "distinct (temp_channels (config s))"
  from elapse_temp_channels [of s t resp] d Elapse show ?thesis
    by (auto simp: temp_remove_distinct)
qed simp_all

text \<open>
  Claim C10. The tracked list has no duplicate: \<open>_add_temp_channel\<close> appends an id only
  when it is absent and \<open>_remove_temp_channel\<close> removes an id only when it is present, so
  on a list without duplicates both keep it so and act as insertion into and deletion from
  a set. The operations that write the configuration (the lobby join, the transfer, and
  the timer events) change the list through these two only, so they keep it free of
  duplicates as well.
\<close>

theorem temp_channels_no_duplicates:
  assumes "distinct (temp_channels conf)"
  shows "distinct (temp_channels (add_temp_channel conf c))
       \<and> distinct (temp_channels (remove_temp_channel conf c))
       \<and> set (temp_channels (add_temp_channel conf c)) = insert c (set (temp_channels conf))
       \<and> set (temp_channels (remove_temp_channel conf c)) = set (temp_channels conf) - {c}
       \<and> (c \<in> set (temp_channels conf) \<longrightarrow> add_temp_channel conf c = conf)
       \<and> (c \<notin> set (temp_channels conf) \<longrightarrow> remove_temp_channel conf c = conf)
       \<and> (\<forall>s::state. config s = conf \<longrightarrow>
            distinct (temp_channels (config (snd (handle_creation_join bf s m base cr mr))))
          \<and> distinct (temp_channels (config (snd (vch_owner_transfer bf s m m' er))))
          \<and> distinct (temp_channels (config (timer_step s e))))"
proof -
  have ops: "\<forall>s::state. config s = conf \<longrightarrow>
            distinct (temp_channels (config (snd (handle_creation_join bf s m base cr mr))))
          \<and> distinct (temp_channels (config (snd (vch_owner_transfer bf s m m' er))))
          \<and> distinct (temp_channels (config (timer_step s e)))"
  proof (intro allI impI)
    fix s :: state assume s: "config s = conf"
    have "distinct (temp_channels (config (snd (handle_creation_join bf s m base cr mr))))"
      using join_temp_channels [of bf s m base cr mr] assms s
      by (auto simp: temp_add_distinct)
    moreover have "distinct (temp_channels (config (snd (vch_owner_transfer bf s m m' er))))"
      using assms s by (simp add: transfer_temp_channels)
    moreover have "distinct (temp_channels (config (timer_step s e)))"
      using assms s by (simp add: timer_step_temp_distinct)
    ultimately show "distinct (temp_channels (config (snd (handle_creation_join bf s m base cr mr))))
          \<and> distinct (temp_channels (config (snd (vch_owner_transfer bf s m m' er))))
          \<and> distinct (temp_channels (config (timer_step s e)))"
      by simp
  qed
  have basic: "distinct (temp_channels (add_temp_channel conf c))
       \<and> distinct (temp_channels (remove_temp_channel conf c))
       \<and> set (temp_channels (add_temp_channel conf c)) = insert c (set (temp_channels conf))
       \<and> set (temp_channels (remove_temp_channel conf c)) = set (temp_channels conf) - {c}"
    using assms by (simp add: temp_add_distinct temp_remove_distinct temp_add_set temp_remove_set)
  have noop: "(c \<in> set (temp_channels conf) \<longrightarrow> add_temp_channel conf c = conf)
       \<and> (c \<notin> set (temp_channels conf) \<longrightarrow> remove_temp_channel conf c = conf)"
    by (simp add: add_temp_channel_def remove_temp_channel_def)
  show ?thesis using basic noop ops by blast
qed

theorem temp_channels_witness:
  "distinct (temp_channels (config example_state))
   \<and> temp_channels (add_temp_channel (config example_state) 10) = [10]
   \<and> temp_channels (add_temp_channel (config example_state) 11) = [10, 11]
   \<and> temp_channels (remove_temp_channel (config example_state) 10) = []
   \<and> remove_temp_channel (config example_state) 11 = config example_state
   \<and> distinct (temp_channels (config (snd (handle_creation_join raising_format example_state
        bob example_lobby (CreateOk 11) MoveOk))))"
proof -
  have d: "distinct (temp_channels (config example_state))"
    by (simp add: example_defs)
  have tc: "temp_channels (config example_state) = [10]"
    by (simp add: example_defs)
  from temp_channels_no_duplicates [OF d, of 11 raising_format bob example_lobby "CreateOk 11"
      MoveOk bob EditOk "Cancel 10"] d tc
  show ?thesis
    by (simp add: add_temp_channel_def remove_temp_channel_def)
qed

end
